theory Spec2Isabelle
  imports Complex_Main
begin

section \<open>JavaScript numbers and strings\<close>

text \<open>
  A JavaScript number is a double: \<open>Fin r\<close> is the double of value \<open>r\<close>, beside the
  two infinities and NaN (the two zeros are not told apart). Every result of arithmetic
  and of reading a decimal is rounded to the nearest double, ties to even, by
  \<open>round_double\<close>: a number \<open>v\<close> is rounded to a multiple of the unit in the last
  place of its binade (53 significant bits, exponents down to the subnormal unit
  \<open>2^-1074\<close>), and a result of magnitude \<open>2^1024\<close> is an infinity. A decimal
  literal of the source, such as 0.0001, is \<open>round_double 0.0001\<close>.
\<close>

datatype jsnum = Fin real | PosInf | NegInf | NaN

definition round_even :: "real \<Rightarrow> int" where
  "round_even x =
     (let f = \<lfloor>x\<rfloor>; d = x - of_int f
      in if d < 1 / 2 then f else if 1 / 2 < d then f + 1 else if even f then f else f + 1)"

definition ulp_exponent :: "real \<Rightarrow> int" where
  "ulp_exponent v = max \<lfloor>log 2 \<bar>v\<bar>\<rfloor> (- 1022) - 52"

definition round_double :: "real \<Rightarrow> jsnum" where
  "round_double v =
     (if v = 0 then Fin 0
      else
        let u = 2 powi ulp_exponent v;
            r = of_int (round_even (v / u)) * u
        in if 2 ^ 1024 \<le> \<bar>r\<bar> then (if 0 < v then PosInf else NegInf) else Fin r)"

text \<open>
  The operations the source applies: \<open>isNaN\<close>, \<open>isFinite\<close>, unary minus,
  \<open>Math.abs\<close>, \<open>+\<close>, \<open>-\<close>, \<open>Math.pow(x, 2)\<close> (the rounded product),
  \<open>Math.sqrt\<close> (the rounded root), \<open>>\<close> and \<open>!==\<close>.
\<close>

fun isNaN :: "jsnum \<Rightarrow> bool" where
  "isNaN NaN = True"
| "isNaN _ = False"

fun isFinite :: "jsnum \<Rightarrow> bool" where
  "isFinite (Fin _) = True"
| "isFinite _ = False"

fun js_neg :: "jsnum \<Rightarrow> jsnum" where
  "js_neg (Fin a) = Fin (- a)"
| "js_neg PosInf = NegInf"
| "js_neg NegInf = PosInf"
| "js_neg NaN = NaN"

fun js_abs :: "jsnum \<Rightarrow> jsnum" where
  "js_abs (Fin a) = Fin \<bar>a\<bar>"
| "js_abs PosInf = PosInf"
| "js_abs NegInf = PosInf"
| "js_abs NaN = NaN"

fun js_add :: "jsnum \<Rightarrow> jsnum \<Rightarrow> jsnum" where
  "js_add NaN _ = NaN"
| "js_add _ NaN = NaN"
| "js_add (Fin a) (Fin b) = round_double (a + b)"
| "js_add PosInf NegInf = NaN"
| "js_add NegInf PosInf = NaN"
| "js_add PosInf _ = PosInf"
| "js_add NegInf _ = NegInf"
| "js_add (Fin a) x = x"

definition js_sub :: "jsnum \<Rightarrow> jsnum \<Rightarrow> jsnum" where
  "js_sub x y = js_add x (js_neg y)"

fun js_sq :: "jsnum \<Rightarrow> jsnum" where
  "js_sq (Fin a) = round_double (a * a)"
| "js_sq NaN = NaN"
| "js_sq _ = PosInf"

fun js_sqrt :: "jsnum \<Rightarrow> jsnum" where
  "js_sqrt (Fin a) = (if a < 0 then NaN else round_double (sqrt a))"
| "js_sqrt PosInf = PosInf"
| "js_sqrt _ = NaN"

fun js_gt :: "jsnum \<Rightarrow> jsnum \<Rightarrow> bool" where
  "js_gt NaN _ = False"
| "js_gt _ NaN = False"
| "js_gt (Fin a) (Fin b) = (a > b)"
| "js_gt PosInf PosInf = False"
| "js_gt PosInf _ = True"
| "js_gt NegInf _ = False"
| "js_gt (Fin a) NegInf = True"
| "js_gt (Fin a) PosInf = False"

definition js_strict_ne :: "jsnum \<Rightarrow> jsnum \<Rightarrow> bool" where
  "js_strict_ne a b = (isNaN a \<or> isNaN b \<or> a \<noteq> b)"

text \<open>
  Strings are lists of characters; a character stands for a UTF-16 code unit below 256.
  \<open>is_ws\<close> is the white space and line terminators of the language in that range,
  which \<open>String.prototype.trim\<close> and \<open>parseFloat\<close> skip.
\<close>

definition is_ws :: "char \<Rightarrow> bool" where
  "is_ws c = (c \<in> set [CHR 0x09, CHR 0x0A, CHR 0x0B, CHR 0x0C, CHR 0x0D, CHR 0x20, CHR 0xA0])"

definition trim :: "string \<Rightarrow> string" where
  "trim s = rev (dropWhile is_ws (rev (dropWhile is_ws s)))"

text \<open>\<open>s.replace(a, b)\<close> with a one-character string pattern: the first occurrence only.\<close>

fun replace_first :: "char \<Rightarrow> char \<Rightarrow> string \<Rightarrow> string" where
  "replace_first a b [] = []"
| "replace_first a b (c # cs) = (if c = a then b # cs else c # replace_first a b cs)"

subsection \<open>parseFloat\<close>

definition is_digit :: "char \<Rightarrow> bool" where
  "is_digit c = (c \<in> set ''0123456789'')"

definition digit_val :: "char \<Rightarrow> nat" where
  "digit_val c = of_char c - 48"

definition digits_val :: "string \<Rightarrow> nat" where
  "digits_val ds = foldl (\<lambda>a c. 10 * a + digit_val c) 0 ds"

definition pow10 :: "int \<Rightarrow> real" where
  "pow10 e = (if 0 \<le> e then 10 ^ nat e else 1 / 10 ^ nat (- e))"

text \<open>
  The optional exponent part \<open>(e|E)(+|-)?digits\<close>; where it is absent or has no digit
  the literal ends before it and the exponent is 0.
\<close>

definition parse_exponent :: "string \<Rightarrow> int" where
  "parse_exponent r =
     (case r of
        [] \<Rightarrow> 0
      | c # r' \<Rightarrow>
          if c = CHR ''e'' \<or> c = CHR ''E'' then
            (case r' of
               [] \<Rightarrow> 0
             | s # d \<Rightarrow>
                 if s = CHR ''+'' then
                   (if takeWhile is_digit d = [] then 0 else int (digits_val (takeWhile is_digit d)))
                 else if s = CHR ''-'' then
                   (if takeWhile is_digit d = [] then 0 else - int (digits_val (takeWhile is_digit d)))
                 else
                   (if takeWhile is_digit r' = [] then 0 else int (digits_val (takeWhile is_digit r'))))
          else 0)"

text \<open>
  The longest prefix that is an unsigned decimal literal: \<open>Infinity\<close>, or digits with an
  optional fraction and exponent, or a fraction starting with the point; its decimal
  value is rounded to the nearest double. No such prefix gives NaN.
\<close>

definition parse_unsigned :: "string \<Rightarrow> jsnum" where
  "parse_unsigned r =
     (if take 8 r = ''Infinity'' then PosInf
      else
        let ip = takeWhile is_digit r;
            r1 = dropWhile is_digit r;
            has_dot = (case r1 of [] \<Rightarrow> False | c # _ \<Rightarrow> c = CHR ''.'');
            fp = (if has_dot then takeWhile is_digit (tl r1) else []);
            r2 = (if has_dot then dropWhile is_digit (tl r1) else r1)
        in if ip = [] \<and> fp = [] then NaN
           else round_double
                  (real (digits_val (ip @ fp)) * pow10 (parse_exponent r2 - int (length fp))))"

definition parseFloat :: "string \<Rightarrow> jsnum" where
  "parseFloat s =
     (case dropWhile is_ws s of
        [] \<Rightarrow> NaN
      | c # r \<Rightarrow>
          if c = CHR ''+'' then parse_unsigned r
          else if c = CHR ''-'' then js_neg (parse_unsigned r)
          else parse_unsigned (c # r))"

section \<open>The data model (types.ts)\<close>

record Coordinates =
  lat :: jsnum
  lng :: jsnum
  accuracy :: "jsnum option"

record Place =
  id :: string
  name :: string
  coordinates :: Coordinates
  address :: "string option"
  description :: "string option"

text \<open>The route's \<open>coordinates\<close> field, a list of \<open>[lat, lng]\<close> pairs, is \<open>route_coordinates\<close> here.\<close>

record RouteData =
  route_coordinates :: "(jsnum \<times> jsnum) list"
  distance :: jsnum
  duration :: jsnum

section \<open>The extraction protocol (parseResponse)\<close>

text \<open>
  \<open>PLACE_TAG_REGEX\<close> is
  \<^verbatim>\<open>/\{\{DATA:([^|]*?)\|([^|]*?)\|([^|]*?)\|([^}]*?)\}\}/g\<close>.
  Matched at a given position it is deterministic: after the opener each of the first
  three groups can only end at the next pipe (a group holds no pipe and a pipe must
  follow it), and the fourth only at the next closing brace, which a second closing brace
  must follow. \<open>match_here\<close> returns the four groups and the text after the match.
\<close>

fun take_until :: "char \<Rightarrow> string \<Rightarrow> (string \<times> string) option" where
  "take_until c [] = None"
| "take_until c (x # xs) =
     (if x = c then Some ([], xs)
      else (case take_until c xs of None \<Rightarrow> None | Some (a, b) \<Rightarrow> Some (x # a, b)))"

type_synonym groups = "string \<times> string \<times> string \<times> string"

definition match_here :: "string \<Rightarrow> (groups \<times> string) option" where
  "match_here s =
     (if take 7 s = ''{{DATA:'' then
        (case take_until CHR ''|'' (drop 7 s) of None \<Rightarrow> None | Some (nameStr, r1) \<Rightarrow>
         (case take_until CHR ''|'' r1 of None \<Rightarrow> None | Some (latStr, r2) \<Rightarrow>
          (case take_until CHR ''|'' r2 of None \<Rightarrow> None | Some (lngStr, r3) \<Rightarrow>
           (case take_until CHR ''}'' r3 of None \<Rightarrow> None | Some (addressStr, r4) \<Rightarrow>
            (case r4 of [] \<Rightarrow> None
             | c # rest \<Rightarrow>
                 if c = CHR ''}'' then Some ((nameStr, latStr, lngStr, addressStr), rest)
                 else None)))))
      else None)"

text \<open>
  One call of \<open>exec\<close> (or one step of a global \<open>replace\<close>) on the text from
  \<open>lastIndex\<close> on: the leftmost position where the pattern matches, as the text before
  the match, the groups, and the text after it.
\<close>

fun regex_search :: "string \<Rightarrow> (string \<times> groups \<times> string) option" where
  "regex_search [] = None"
| "regex_search (c # cs) =
     (case match_here (c # cs) of
        Some (g, rest) \<Rightarrow> Some ([], g, rest)
      | None \<Rightarrow>
          (case regex_search cs of
             None \<Rightarrow> None
           | Some (pre, g, rest) \<Rightarrow> Some (c # pre, g, rest)))"

lemma take_until_shorter: "take_until c s = Some (a, b) \<Longrightarrow> length b < length s"
  by (induction s arbitrary: a b) (auto split: if_splits option.splits)

lemma match_here_shorter: "match_here s = Some (g, rest) \<Longrightarrow> length rest < length s"
  unfolding match_here_def
  by (fastforce split: if_splits option.splits list.splits dest!: take_until_shorter)

lemma regex_search_shorter: "regex_search s = Some (pre, g, rest) \<Longrightarrow> length rest < length s"
  by (induction s arbitrary: pre g rest)
     (auto split: option.splits dest!: match_here_shorter)

text \<open>The validity test of \<open>parseResponse\<close>, local to that function.\<close>

definition isValidCoordinate :: "jsnum \<Rightarrow> bool" where
  "isValidCoordinate num = (\<not> isNaN num \<and> isFinite num)"

text \<open>
  The body of the loop for one match. \<open>Math.random\<close> is the parameter \<open>rnd\<close>: the
  identifier drawn for the k-th place pushed is \<open>rnd k\<close>.
\<close>

definition process_match :: "(nat \<Rightarrow> string) \<Rightarrow> Place list \<Rightarrow> groups \<Rightarrow> Place list" where
  "process_match rnd ps g =
     (case g of (nameStr, latStr, lngStr, addressStr) \<Rightarrow>
        let latN = parseFloat (replace_first CHR '','' CHR ''.'' (trim latStr));
            lngN = parseFloat (replace_first CHR '','' CHR ''.'' (trim lngStr))
        in if isValidCoordinate latN \<and> isValidCoordinate lngN
              \<and> (js_gt (js_abs latN) (round_double 0.0001) \<or> js_gt (js_abs lngN) (round_double 0.0001))
           then ps @
                [\<lparr>id = rnd (length ps), name = trim nameStr,
                  coordinates = \<lparr>lat = latN, lng = lngN, accuracy = None\<rparr>,
                  address = Some (trim addressStr),
                  description = Some (''Located at '' @ trim addressStr)\<rparr>]
           else ps)"

function exec_loop :: "(nat \<Rightarrow> string) \<Rightarrow> Place list \<Rightarrow> string \<Rightarrow> Place list" where
  "exec_loop rnd ps s =
     (case regex_search s of
        None \<Rightarrow> ps
      | Some (pre, g, rest) \<Rightarrow> exec_loop rnd (process_match rnd ps g) rest)"
  by pat_completeness auto
termination
  by (relation "measure (\<lambda>(rnd, ps, s). length s)") (auto dest: regex_search_shorter)

function replace_all :: "string \<Rightarrow> string" where
  "replace_all s =
     (case regex_search s of
        None \<Rightarrow> s
      | Some (pre, g, rest) \<Rightarrow> pre @ replace_all rest)"
  by pat_completeness auto
termination
  by (relation "measure length") (auto dest: regex_search_shorter)

record ParseResult =
  cleanText :: string
  places :: "Place list"

definition parseResponse :: "(nat \<Rightarrow> string) \<Rightarrow> string \<Rightarrow> ParseResult" where
  "parseResponse rnd text = \<lparr>cleanText = replace_all text, places = exec_loop rnd [] text\<rparr>"

subsection \<open>Texts as tags among other text\<close>

text \<open>
  To state what the scan finds, a text is seen as a sequence of segments: stretches of
  other text and tags. \<open>tag_text\<close> writes a tag out, \<open>render\<close> a sequence. A tag is
  well formed when its first three fields hold no pipe and its address no closing brace;
  a stretch of other text is harmless when it holds no opening brace. \<open>tokens\<close> cuts
  a text at the matches the scan finds, left to right.
\<close>

datatype segment = Plain string | Tag groups

fun tag_text :: "groups \<Rightarrow> string" where
  "tag_text (n, la, lo, ad) = ''{{DATA:'' @ n @ ''|'' @ la @ ''|'' @ lo @ ''|'' @ ad @ ''}}''"

fun render :: "segment list \<Rightarrow> string" where
  "render [] = []"
| "render (Plain t # ss) = t @ render ss"
| "render (Tag g # ss) = tag_text g @ render ss"

fun plains_of :: "segment list \<Rightarrow> string list" where
  "plains_of [] = []"
| "plains_of (Plain t # ss) = t # plains_of ss"
| "plains_of (Tag g # ss) = plains_of ss"

fun tags_of :: "segment list \<Rightarrow> groups list" where
  "tags_of [] = []"
| "tags_of (Plain t # ss) = tags_of ss"
| "tags_of (Tag g # ss) = g # tags_of ss"

fun wf_tag :: "groups \<Rightarrow> bool" where
  "wf_tag (n, la, lo, ad) =
     (CHR ''|'' \<notin> set n \<and> CHR ''|'' \<notin> set la \<and> CHR ''|'' \<notin> set lo \<and> CHR ''}'' \<notin> set ad)"

fun wf_segment :: "segment \<Rightarrow> bool" where
  "wf_segment (Plain t) = (CHR ''{'' \<notin> set t)"
| "wf_segment (Tag g) = wf_tag g"

function tokens :: "string \<Rightarrow> segment list" where
  "tokens s =
     (case regex_search s of
        None \<Rightarrow> [Plain s]
      | Some (pre, g, rest) \<Rightarrow> Plain pre # Tag g # tokens rest)"
  by pat_completeness auto
termination
  by (relation "measure length") (auto dest: regex_search_shorter)

text \<open>The test \<open>parseResponse\<close> applies to a match, and the place it builds.\<close>

definition tag_accepted :: "groups \<Rightarrow> bool" where
  "tag_accepted g =
     (case g of (nameStr, latStr, lngStr, addressStr) \<Rightarrow>
        let latN = parseFloat (replace_first CHR '','' CHR ''.'' (trim latStr));
            lngN = parseFloat (replace_first CHR '','' CHR ''.'' (trim lngStr))
        in isValidCoordinate latN \<and> isValidCoordinate lngN
           \<and> (js_gt (js_abs latN) (round_double 0.0001) \<or> js_gt (js_abs lngN) (round_double 0.0001)))"

definition make_place :: "string \<Rightarrow> groups \<Rightarrow> Place" where
  "make_place i g =
     (case g of (nameStr, latStr, lngStr, addressStr) \<Rightarrow>
        \<lparr>id = i, name = trim nameStr,
         coordinates = \<lparr>lat = parseFloat (replace_first CHR '','' CHR ''.'' (trim latStr)),
                        lng = parseFloat (replace_first CHR '','' CHR ''.'' (trim lngStr)),
                        accuracy = None\<rparr>,
         address = Some (trim addressStr),
         description = Some (''Located at '' @ trim addressStr)\<rparr>)"

text \<open>The places built from a list of accepted matches, the k-th with the k-th identifier.\<close>

fun build_places :: "(nat \<Rightarrow> string) \<Rightarrow> nat \<Rightarrow> groups list \<Rightarrow> Place list" where
  "build_places rnd k [] = []"
| "build_places rnd k (g # gs) = make_place (rnd k) g # build_places rnd (Suc k) gs"

text \<open>
  The rejection rule in the spec's words, to compare with \<open>tag_accepted\<close>: a match is
  dropped if either numeric field fails to parse (NaN) or is not finite, or if both
  coordinates are within 0.0001 degrees of the origin (0.0001 being the number the
  source writes).
\<close>

definition near_origin :: "jsnum \<Rightarrow> bool" where
  "near_origin x =
     (case x of
        Fin a \<Rightarrow> (case round_double 0.0001 of Fin t \<Rightarrow> \<bar>a\<bar> \<le> t | _ \<Rightarrow> False)
      | _ \<Rightarrow> False)"

definition spec_rejects :: "groups \<Rightarrow> bool" where
  "spec_rejects g =
     (case g of (nameStr, latStr, lngStr, addressStr) \<Rightarrow>
        let latN = parseFloat (replace_first CHR '','' CHR ''.'' (trim latStr));
            lngN = parseFloat (replace_first CHR '','' CHR ''.'' (trim lngStr))
        in isNaN latN \<or> isNaN lngN \<or> \<not> isFinite latN \<or> \<not> isFinite lngN
           \<or> (near_origin latN \<and> near_origin lngN))"

text \<open>The number \<open>parseResponse\<close> reads from a numeric field.\<close>

definition numeric_field :: "string \<Rightarrow> jsnum" where
  "numeric_field s = parseFloat (replace_first CHR '','' CHR ''.'' (trim s))"

text \<open>A fixed sequence of identifiers, for concrete runs.\<close>

definition sample_ids :: "nat \<Rightarrow> string" where
  "sample_ids k = replicate (Suc k) CHR ''a''"

section \<open>The map camera (components/Map.tsx)\<close>

text \<open>
  What the source relies on of the rendering library: the camera has a centre and a zoom
  (\<open>getCenter\<close>, \<open>getZoom\<close>); \<open>setView\<close> puts it at a centre and a zoom;
  \<open>L.latLngBounds\<close> raises an error on a point with a NaN component (the library's
  point constructor checks exactly that) and otherwise encloses the points;
  \<open>isValid\<close> of the bounds holds as soon as they enclose a point.
\<close>

record LeafletMap =
  map_center :: "jsnum \<times> jsnum"
  map_zoom :: jsnum

definition setView :: "LeafletMap \<Rightarrow> jsnum \<Rightarrow> jsnum \<Rightarrow> jsnum \<Rightarrow> LeafletMap" where
  "setView m a b z = m\<lparr>map_center := (a, b), map_zoom := z\<rparr>"

definition latLngBounds :: "(jsnum \<times> jsnum) list \<Rightarrow> (jsnum \<times> jsnum) list option" where
  "latLngBounds pts = (if list_ex (\<lambda>pt. isNaN (fst pt) \<or> isNaN (snd pt)) pts then None else Some pts)"

definition bounds_isValid :: "(jsnum \<times> jsnum) list \<Rightarrow> bool" where
  "bounds_isValid b = (b \<noteq> [])"

text \<open>
  What one run of a component asks of the camera: nothing, \<open>fitBounds\<close> on points (with
  the \<open>maxZoom\<close> option where given; the padding is 50 in both callers), \<open>setView\<close>
  to a centre and zoom with an animation of the given duration, or an exception that
  leaves the component.
\<close>

datatype camera = NoOp | FitBounds "(jsnum \<times> jsnum) list" "jsnum option"
  | SetView jsnum jsnum jsnum real | Threw

definition isValidCoord :: "jsnum \<Rightarrow> jsnum \<Rightarrow> bool" where
  "isValidCoord la lo = (\<not> isNaN la \<and> \<not> isNaN lo \<and> isFinite la \<and> isFinite lo)"

text \<open>A number in a condition (\<open>zoom || map.getZoom()\<close>): 0 and NaN count as false.\<close>

definition js_truthy :: "jsnum \<Rightarrow> bool" where
  "js_truthy z = (z \<noteq> Fin 0 \<and> z \<noteq> NaN)"

record MapUpdaterProps =
  center :: "Coordinates option"
  zoom :: "jsnum option"
  userLocation :: "Coordinates option"
  isNavigating :: bool
  routeData :: "RouteData option"
  isFollowingUser :: bool

record Refs =
  lastAppliedCenter :: "Coordinates option"
  lastAppliedZoom :: "jsnum option"

text \<open>
  The effect of \<open>MapUpdater\<close>, one run: the props, the camera and the two refs in; the
  instruction to the camera and the refs out. The three blocks of the effect are the
  three definitions below, in the source's order.
\<close>

text \<open>
  Normal center update logic when not navigating/following. The last applied zoom is
  null or a number, and \<open>!==\<close> holds between null and a number.
\<close>

definition update_center :: "MapUpdaterProps \<Rightarrow> LeafletMap \<Rightarrow> Refs \<Rightarrow> camera \<times> Refs" where
  "update_center p m r =
     (case center p of
        None \<Rightarrow> (NoOp, r)
      | Some c \<Rightarrow>
          if \<not> isValidCoord (lat c) (lng c) then (NoOp, r)
          else
            let targetZoom =
                  (case zoom p of
                     None \<Rightarrow> map_zoom m
                   | Some z \<Rightarrow> if js_truthy z then z else map_zoom m);
                centerChanged =
                  (case lastAppliedCenter r of
                     None \<Rightarrow> True
                   | Some l \<Rightarrow>
                       js_gt (js_abs (js_sub (lat l) (lat c))) (round_double 0.000001)
                       \<or> js_gt (js_abs (js_sub (lng l) (lng c))) (round_double 0.000001));
                zoomChanged =
                  (case lastAppliedZoom r of
                     None \<Rightarrow> True
                   | Some lz \<Rightarrow> js_strict_ne lz targetZoom)
            in if centerChanged \<or> zoomChanged
               then (SetView (lat c) (lng c) targetZoom 1.5,
                     r\<lparr>lastAppliedCenter := Some c, lastAppliedZoom := Some targetZoom\<rparr>)
               else (NoOp, r))"

text \<open>Follow User Mode (Navigating OR Explicit Follow); falls through to the centre update.\<close>

definition follow_user :: "MapUpdaterProps \<Rightarrow> LeafletMap \<Rightarrow> Refs \<Rightarrow> camera \<times> Refs" where
  "follow_user p m r =
     (case userLocation p of
        None \<Rightarrow> update_center p m r
      | Some u \<Rightarrow>
          if (isNavigating p \<or> isFollowingUser p) \<and> isValidCoord (lat u) (lng u) then
            (let currentCenter = map_center m;
                 dist = js_sqrt (js_add (js_sq (js_sub (fst currentCenter) (lat u)))
                                        (js_sq (js_sub (snd currentCenter) (lng u))))
             in if js_gt dist (round_double 0.0001)
                then (SetView (lat u) (lng u) (map_zoom m) 1.0, r)
                else (NoOp, r))
          else update_center p m r)"

text \<open>
  If we have route data, fit bounds to it, but if following user, prioritize user
  location. The call of \<open>L.latLngBounds\<close> is outside any \<open>try\<close>.
\<close>

definition MapUpdater :: "MapUpdaterProps \<Rightarrow> LeafletMap \<Rightarrow> Refs \<Rightarrow> camera \<times> Refs" where
  "MapUpdater p m r =
     (case routeData p of
        None \<Rightarrow> follow_user p m r
      | Some rd \<Rightarrow>
          if 0 < length (route_coordinates rd) \<and> \<not> isFollowingUser p then
            (case latLngBounds (route_coordinates rd) of
               None \<Rightarrow> (Threw, r)
             | Some bounds \<Rightarrow> if bounds_isValid bounds then (FitBounds bounds None, r) else (NoOp, r))
          else follow_user p m r)"

text \<open>
  The click handler of \<open>FitBoundsControl\<close>: invalid places are filtered out first, and
  the library calls are inside a \<open>try\<close> whose handler only logs.
\<close>

definition fitBounds :: "Place list \<Rightarrow> camera" where
  "fitBounds ps =
     (let validPlaces = filter (\<lambda>pl. isValidCoord (lat (coordinates pl)) (lng (coordinates pl))) ps
      in if length validPlaces = 0 then NoOp
         else
           let latLngs = map (\<lambda>pl. (lat (coordinates pl), lng (coordinates pl))) validPlaces
           in (case latLngBounds latLngs of
                 None \<Rightarrow> NoOp
               | Some bounds \<Rightarrow> if bounds_isValid bounds then FitBounds bounds (Some (Fin 15)) else NoOp))"

section \<open>The application state (App.tsx)\<close>

text \<open>
  The state of \<open>App\<close> that reaches the map. The fields \<open>isNavigating\<close>,
  \<open>isFollowingUser\<close>, \<open>routeData\<close> and \<open>places\<close> of the source carry the prefix
  \<open>app_\<close> here, other records having fields of these names.
\<close>

record AppState =
  app_places :: "Place list"
  mapCenter :: Coordinates
  mapZoom :: jsnum
  gpsLocation :: "Coordinates option"
  manualLocation :: "Coordinates option"
  destinationLocation :: "Coordinates option"
  app_isNavigating :: bool
  app_isFollowingUser :: bool
  app_routeData :: "RouteData option"

text \<open>The state \<open>App\<close> starts in (\<open>DEFAULT_CENTER\<close> is 0, 0 and \<open>DEFAULT_ZOOM\<close> is 2).\<close>

definition initial_state :: AppState where
  "initial_state =
     \<lparr>app_places = [], mapCenter = \<lparr>lat = Fin 0, lng = Fin 0, accuracy = None\<rparr>, mapZoom = Fin 2,
      gpsLocation = None, manualLocation = None, destinationLocation = None,
      app_isNavigating = False, app_isFollowingUser = False, app_routeData = None\<rparr>"

text \<open>Derived state: user location is manual if set, otherwise GPS.\<close>

definition app_userLocation :: "AppState \<Rightarrow> Coordinates option" where
  "app_userLocation a = (case manualLocation a of Some l \<Rightarrow> Some l | None \<Rightarrow> gpsLocation a)"

text \<open>
  The success callback \<open>startLocationWatch\<close> registers with \<open>watchPosition\<close>, on a
  position (latitude, longitude, accuracy): it stores the position and calls the
  \<open>onSuccess\<close> it was given, on every position the watch delivers.
\<close>

definition watch_success ::
  "(Coordinates \<Rightarrow> AppState \<Rightarrow> AppState) option \<Rightarrow> jsnum \<Rightarrow> jsnum \<Rightarrow> jsnum \<Rightarrow> AppState \<Rightarrow> AppState" where
  "watch_success onSuccess la lo acc a =
     (if \<not> isNaN la \<and> \<not> isNaN lo then
        (let coords = \<lparr>lat = la, lng = lo, accuracy = Some acc\<rparr>;
             a' = a\<lparr>gpsLocation := Some coords\<rparr>
         in case onSuccess of None \<Rightarrow> a' | Some f \<Rightarrow> f coords a')
      else a)"

text \<open>The \<open>onSuccess\<close> of the watch started on mount: it does nothing.\<close>

definition mount_onSuccess :: "Coordinates \<Rightarrow> AppState \<Rightarrow> AppState" where
  "mount_onSuccess coords a = a"

text \<open>
  The \<open>onSuccess\<close> of the watch \<open>handleManualLocate\<close> starts: centre on the position,
  zoom 16, follow (it also sets a message and clears the selected place).
\<close>

definition locate_onSuccess :: "Coordinates \<Rightarrow> AppState \<Rightarrow> AppState" where
  "locate_onSuccess coords a = a\<lparr>mapCenter := coords, mapZoom := Fin 16, app_isFollowingUser := True\<rparr>"

text \<open>
  \<open>handleManualLocate\<close>, the handler of the locate button. The second component tells
  whether it started a watch with \<open>locate_onSuccess\<close> (it does when no GPS position is
  known; the watch is never cleared).
\<close>

definition handleManualLocate :: "AppState \<Rightarrow> AppState \<times> bool" where
  "handleManualLocate a =
     (case manualLocation a of
        Some l \<Rightarrow>
          (case gpsLocation a of
             Some g \<Rightarrow>
               (a\<lparr>manualLocation := None, app_isFollowingUser := True,
                  mapCenter := g, mapZoom := Fin 16\<rparr>, False)
           | None \<Rightarrow> (a\<lparr>manualLocation := None, app_isFollowingUser := True\<rparr>, False))
      | None \<Rightarrow>
          (let a' =
                 (if app_isFollowingUser a then a\<lparr>app_isFollowingUser := False\<rparr>
                  else
                    (case gpsLocation a of
                       Some g \<Rightarrow> a\<lparr>app_isFollowingUser := True, mapCenter := g, mapZoom := Fin 16\<rparr>
                     | None \<Rightarrow> a\<lparr>app_isFollowingUser := True\<rparr>))
           in (a', gpsLocation a = None)))"

text \<open>
  A position the device delivers: to the watch of the mount effect and, when the locate
  button has started one, to that watch too.
\<close>

definition position_fix :: "bool \<Rightarrow> jsnum \<Rightarrow> jsnum \<Rightarrow> jsnum \<Rightarrow> AppState \<Rightarrow> AppState" where
  "position_fix located la lo acc a =
     (let a' = watch_success (Some mount_onSuccess) la lo acc a
      in if located then watch_success (Some locate_onSuccess) la lo acc a' else a')"

definition handleStartTrip :: "AppState \<Rightarrow> AppState" where
  "handleStartTrip a =
     (case app_userLocation a of
        None \<Rightarrow> a
      | Some u \<Rightarrow>
          (case destinationLocation a of
             None \<Rightarrow> a
           | Some d \<Rightarrow>
               a\<lparr>app_isNavigating := True, app_isFollowingUser := True,
                 mapCenter := u, mapZoom := Fin 16\<rparr>))"


definition handleMapDrag :: "AppState \<Rightarrow> AppState" where
  "handleMapDrag a = (if app_isFollowingUser a then a\<lparr>app_isFollowingUser := False\<rparr> else a)"


definition handlePlaceSelect :: "string \<Rightarrow> AppState \<Rightarrow> AppState" where
  "handlePlaceSelect placeId a =
     (let a' = a\<lparr>app_isFollowingUser := False\<rparr>
      in case find (\<lambda>pl. id pl = placeId) (app_places a) of
           None \<Rightarrow> a'
         | Some pl \<Rightarrow>
             if \<not> isNaN (lat (coordinates pl))
             then a'\<lparr>mapCenter := coordinates pl, mapZoom := Fin 16\<rparr>
             else a')"

text \<open>The props \<open>App\<close> hands to the map, as far as \<open>MapUpdater\<close> reads them.\<close>

definition map_props :: "AppState \<Rightarrow> MapUpdaterProps" where
  "map_props a =
     \<lparr>center = Some (mapCenter a), zoom = Some (mapZoom a), userLocation = app_userLocation a,
      isNavigating = app_isNavigating a, routeData = app_routeData a,
      isFollowingUser = app_isFollowingUser a\<rparr>"

text \<open>
  The source has no mode variable: the persistent mode is read off the two flags. The
  follow flag carries it. Every handler that enters a following mode sets the flag
  (\<open>handleStartTrip\<close> sets both flags, the locate button the follow flag alone), and
  every handler that leaves it clears the follow flag and nothing else (the drag, a
  search, the selection of a place, a pin): with the flag off the mode is Idle, with it
  on the mode is Navigating when a trip has started and Following otherwise.
\<close>

datatype mode = Idle | Following | Navigating

definition mode_of :: "bool \<Rightarrow> bool \<Rightarrow> mode" where
  "mode_of navigating following =
     (if following then (if navigating then Navigating else Following) else Idle)"

text \<open>
  Notions the statements about the camera use: the route block of the effect has a route
  to fit; the zoom the centre update aims at; whether the centre and the zoom differ
  from the last applied ones, as the centre update tests it; the distance between two
  positions, in degrees, as the follow block computes it.
\<close>

definition route_to_fit :: "MapUpdaterProps \<Rightarrow> bool" where
  "route_to_fit p = (case routeData p of None \<Rightarrow> False | Some rd \<Rightarrow> 0 < length (route_coordinates rd))"

definition target_zoom :: "MapUpdaterProps \<Rightarrow> LeafletMap \<Rightarrow> jsnum" where
  "target_zoom p m =
     (case zoom p of None \<Rightarrow> map_zoom m | Some z \<Rightarrow> if js_truthy z then z else map_zoom m)"



definition displacement :: "jsnum \<times> jsnum \<Rightarrow> jsnum \<times> jsnum \<Rightarrow> jsnum" where
  "displacement c u =
     js_sqrt (js_add (js_sq (js_sub (fst c) (fst u))) (js_sq (js_sub (snd c) (snd u))))"

section \<open>Properties of the rounding\<close>

lemma round_even_near: "\<bar>x - of_int n\<bar> < 1 / 2 \<Longrightarrow> round_even x = n"
proof -
  assume a: "\<bar>x - of_int n\<bar> < 1 / 2"
  show ?thesis
  proof (cases "of_int n \<le> x")
    case True
    with a have f: "\<lfloor>x\<rfloor> = n" by (intro floor_unique) auto
    with a True show ?thesis by (simp add: round_even_def Let_def)
  next
    case False
    with a have f: "\<lfloor>x\<rfloor> = n - 1" by (intro floor_unique) auto
    with a False show ?thesis by (auto simp: round_even_def Let_def)
  qed
qed

lemma round_even_of_int [simp]: "round_even (of_int n) = n"
  by (rule round_even_near) simp

lemma ulp_exponent_normal:
  "2 powi e \<le> \<bar>v\<bar> \<Longrightarrow> \<bar>v\<bar> < 2 powi (e + 1) \<Longrightarrow> - 1022 \<le> e \<Longrightarrow> ulp_exponent v = e - 52"
proof -
  assume a: "2 powi e \<le> \<bar>v\<bar>" "\<bar>v\<bar> < 2 powi (e + 1)" "- 1022 \<le> e"
  have p: "0 < \<bar>v\<bar>" using a(1) by (smt (verit) zero_less_power_int)
  have 1: "2 powr real_of_int e \<le> \<bar>v\<bar>"
    using a(1) by (simp add: powr_real_of_int')
  have 2: "\<bar>v\<bar> < 2 powr (real_of_int e + 1)"
    using a(2) powr_real_of_int'[of 2 "e + 1"] by simp
  have "\<lfloor>log 2 \<bar>v\<bar>\<rfloor> = e"
    using p 1 2 by (subst floor_log_eq_powr_iff) simp_all
  with a(3) show ?thesis by (simp add: ulp_exponent_def)
qed

lemma round_double_eval:
  assumes "2 powi e \<le> \<bar>v\<bar>" "\<bar>v\<bar> < 2 powi (e + 1)" "- 1022 \<le> e"
    and "\<bar>v / 2 powi (e - 52) - of_int n\<bar> < 1 / 2"
    and "\<bar>real_of_int n * 2 powi (e - 52)\<bar> < 2 ^ 1024"
  shows "round_double v = Fin (of_int n * 2 powi (e - 52))"
proof -
  have z: "v \<noteq> 0" using assms(1) by (smt (verit) zero_less_power_int)
  have u: "ulp_exponent v = e - 52" using assms(1-3) by (rule ulp_exponent_normal)
  have r: "round_even (v / 2 powi (e - 52)) = n" using assms(4) by (rule round_even_near)
  show ?thesis using z assms(5) by (simp add: round_double_def u r Let_def)
qed

lemma round_double_zero [simp]: "round_double 0 = Fin 0"
  by (simp add: round_double_def)

lemma round_double_tiny:
  assumes "v \<noteq> 0" "\<bar>v\<bar> < 2 powi (- 1075)"
  shows "round_double v = Fin 0"
proof -
  have p: "0 < \<bar>v\<bar>" using assms(1) by simp
  have "\<bar>v\<bar> < 2 powr real_of_int (- 1022)"
    using assms(2) powr_real_of_int'[of 2 "- 1022"] by simp
  then have "log 2 \<bar>v\<bar> < real_of_int (- 1022)"
    using p by (simp add: log_less_iff)
  then have "\<lfloor>log 2 \<bar>v\<bar>\<rfloor> < - 1022" by (simp add: floor_less_iff)
  then have u: "ulp_exponent v = - 1074" by (simp add: ulp_exponent_def)
  have "\<bar>v / 2 powi (- 1074)\<bar> < 1 / 2"
    using assms(2) by (simp add: power_int_minus field_simps abs_mult)
  then have "round_even (v / 2 powi (- 1074)) = 0"
    using round_even_near[of "v / 2 powi (- 1074)" 0] by simp
  then show ?thesis using assms(1) by (simp add: round_double_def u Let_def)
qed

text \<open>The numbers the source writes as 0.0001 and 0.000001.\<close>

lemma threshold_4: "round_double 0.0001 = Fin (7378697629483821 / 2 ^ 66)"
  using round_double_eval[of "- 14" "0.0001" 7378697629483821] by simp


lemma round_double_sqrt_eval:
  assumes "(2 powi e)\<^sup>2 \<le> x" "x < (2 powi (e + 1))\<^sup>2" "- 1022 \<le> e" "0 < n"
    and "((real_of_int n - 1 / 2) * 2 powi (e - 52))\<^sup>2 < x"
    and "x < ((real_of_int n + 1 / 2) * 2 powi (e - 52))\<^sup>2"
    and "\<bar>real_of_int n * 2 powi (e - 52)\<bar> < 2 ^ 1024"
  shows "round_double (sqrt x) = Fin (of_int n * 2 powi (e - 52))"
proof (rule round_double_eval)
  have p: "0 < (2::real) powi k" for k by simp
  have x0: "0 \<le> x" using assms(1) by (meson order_trans zero_le_power2)
  have s0: "0 \<le> sqrt x" using x0 by simp
  show "2 powi e \<le> \<bar>sqrt x\<bar>"
    using real_le_rsqrt[OF assms(1)] s0 by simp
  show "\<bar>sqrt x\<bar> < 2 powi (e + 1)"
    using real_less_lsqrt[OF less_imp_le[OF p] assms(2)] s0 by simp
  show "- 1022 \<le> e" by fact
  show "\<bar>real_of_int n * 2 powi (e - 52)\<bar> < 2 ^ 1024" by fact
  let ?u = "(2::real) powi (e - 52)"
  have u: "0 < ?u" by simp
  have lo: "(real_of_int n - 1 / 2) * ?u < sqrt x"
    using real_less_rsqrt[OF assms(5)] .
  have hi0: "0 \<le> (real_of_int n + 1 / 2) * ?u" using assms(4) by simp
  have hi: "sqrt x < (real_of_int n + 1 / 2) * ?u"
    using real_less_lsqrt[OF hi0 assms(6)] .
  from lo u have "real_of_int n - 1 / 2 < sqrt x / ?u" by (simp add: pos_less_divide_eq)
  moreover from hi u have "sqrt x / ?u < real_of_int n + 1 / 2" by (simp add: pos_divide_less_eq)
  ultimately show "\<bar>sqrt x / ?u - real_of_int n\<bar> < 1 / 2" by linarith
qed


section \<open>Properties of the scan\<close>

declare exec_loop.simps [simp del] replace_all.simps [simp del] tokens.simps [simp del]

lemma take_until_append: "c \<notin> set a \<Longrightarrow> take_until c (a @ c # b) = Some (a, b)"
  by (induction a) auto

lemma take_until_sound: "take_until c s = Some (a, b) \<Longrightarrow> s = a @ c # b \<and> c \<notin> set a"
  by (induction s arbitrary: a b) (auto split: if_splits option.splits)

lemma match_here_tag: "wf_tag g \<Longrightarrow> match_here (tag_text g @ rest) = Some (g, rest)"
  by (cases g) (simp add: match_here_def take_until_append)

lemma match_here_sound: "match_here s = Some (g, rest) \<Longrightarrow> s = tag_text g @ rest \<and> wf_tag g"
proof -
  assume a: "match_here s = Some (g, rest)"
  then have p: "take 7 s = ''{{DATA:''"
    by (auto simp: match_here_def split: if_splits)
  have s: "s = take 7 s @ drop 7 s" by simp
  from a p obtain n r1 la r2 lo r3 ad r4 where
    t: "take_until CHR ''|'' (drop 7 s) = Some (n, r1)"
       "take_until CHR ''|'' r1 = Some (la, r2)"
       "take_until CHR ''|'' r2 = Some (lo, r3)"
       "take_until CHR ''}'' r3 = Some (ad, r4)"
       "r4 = CHR ''}'' # rest" "g = (n, la, lo, ad)"
    by (auto simp: match_here_def split: if_splits option.splits list.splits)
  from t(1-4) have "drop 7 s = n @ CHR ''|'' # la @ CHR ''|'' # lo @ CHR ''|'' # ad @ CHR ''}'' # r4"
    and "wf_tag (n, la, lo, ad)"
    by (auto dest!: take_until_sound)
  with s p t(5,6) show ?thesis by (metis append.assoc append_Cons append_Nil tag_text.simps)
qed

lemma match_here_not_brace: "c \<noteq> CHR ''{'' \<Longrightarrow> match_here (c # cs) = None"
  by (simp add: match_here_def)

lemma regex_search_plain_None:
  "CHR ''{'' \<notin> set t \<Longrightarrow> regex_search s = None \<Longrightarrow> regex_search (t @ s) = None"
  by (induction t) (auto simp: match_here_not_brace)

lemma regex_search_plain_Some:
  "CHR ''{'' \<notin> set t \<Longrightarrow> regex_search s = Some (pre, g, rest) \<Longrightarrow>
   regex_search (t @ s) = Some (t @ pre, g, rest)"
  by (induction t) (auto simp: match_here_not_brace)

lemma regex_search_tag: "wf_tag g \<Longrightarrow> regex_search (tag_text g @ rest) = Some ([], g, rest)"
proof -
  assume w: "wf_tag g"
  obtain c cs where e: "tag_text g @ rest = c # cs" by (cases g) auto
  from w have "match_here (c # cs) = Some (g, rest)" using match_here_tag[of g rest] e by simp
  then show ?thesis using e by simp
qed

lemma regex_search_sound:
  "regex_search s = Some (pre, g, rest) \<Longrightarrow> s = pre @ tag_text g @ rest"
  by (induction s arbitrary: pre g rest) (auto split: option.splits dest: match_here_sound)

lemma exec_loop_Nil [simp]: "exec_loop rnd ps [] = ps"
  by (simp add: exec_loop.simps)

lemma replace_all_Nil [simp]: "replace_all [] = []"
  by (simp add: replace_all.simps)

lemma exec_loop_plain:
  "CHR ''{'' \<notin> set t \<Longrightarrow> exec_loop rnd ps (t @ s) = exec_loop rnd ps s"
  by (cases "regex_search s")
     (auto simp: exec_loop.simps[of _ _ "t @ s"] exec_loop.simps[of _ _ s]
                 regex_search_plain_None regex_search_plain_Some)

lemma exec_loop_tag:
  "wf_tag g \<Longrightarrow> exec_loop rnd ps (tag_text g @ s) = exec_loop rnd (process_match rnd ps g) s"
  by (subst exec_loop.simps) (simp add: regex_search_tag)

lemma replace_all_plain:
  "CHR ''{'' \<notin> set t \<Longrightarrow> replace_all (t @ s) = t @ replace_all s"
  by (cases "regex_search s")
     (auto simp: replace_all.simps[of "t @ s"] replace_all.simps[of s]
                 regex_search_plain_None regex_search_plain_Some)

lemma replace_all_tag: "wf_tag g \<Longrightarrow> replace_all (tag_text g @ s) = replace_all s"
  by (subst replace_all.simps) (simp add: regex_search_tag)

lemma exec_loop_render:
  "list_all wf_segment segs \<Longrightarrow>
   exec_loop rnd ps (render segs) = foldl (process_match rnd) ps (tags_of segs)"
proof (induction segs arbitrary: ps)
  case Nil
  then show ?case by simp
next
  case (Cons sg segs)
  then show ?case
    by (cases sg) (simp_all add: exec_loop_plain exec_loop_tag)
qed

lemma replace_all_render:
  "list_all wf_segment segs \<Longrightarrow> replace_all (render segs) = concat (plains_of segs)"
proof (induction segs)
  case Nil
  then show ?case by simp
next
  case (Cons sg segs)
  then show ?case
    by (cases sg) (simp_all add: replace_all_plain replace_all_tag)
qed

lemma render_tokens: "render (tokens s) = s"
proof (induction s rule: tokens.induct)
  case (1 s)
  show ?case
  proof (cases "regex_search s")
    case None
    then show ?thesis by (simp add: tokens.simps[of s])
  next
    case (Some x)
    then obtain pre g rest where x: "regex_search s = Some (pre, g, rest)" by (cases x) auto
    with 1 have r: "render (tokens rest) = rest" by simp
    have t: "tokens s = Plain pre # Tag g # tokens rest"
      by (subst tokens.simps) (simp add: x)
    show ?thesis
      unfolding t using r regex_search_sound[OF x] by simp
  qed
qed

lemma exec_loop_tokens: "exec_loop rnd ps s = foldl (process_match rnd) ps (tags_of (tokens s))"
proof (induction s arbitrary: ps rule: tokens.induct)
  case (1 s)
  show ?case
  proof (cases "regex_search s")
    case None
    then show ?thesis by (simp add: tokens.simps[of s] exec_loop.simps[of _ _ s])
  next
    case (Some x)
    then obtain pre g rest where x: "regex_search s = Some (pre, g, rest)" by (cases x) auto
    with 1 show ?thesis by (simp add: tokens.simps[of s] exec_loop.simps[of _ _ s])
  qed
qed

lemma replace_all_tokens: "replace_all s = concat (plains_of (tokens s))"
proof (induction s rule: tokens.induct)
  case (1 s)
  show ?case
  proof (cases "regex_search s")
    case None
    then show ?thesis by (simp add: tokens.simps[of s] replace_all.simps[of s])
  next
    case (Some x)
    then obtain pre g rest where x: "regex_search s = Some (pre, g, rest)" by (cases x) auto
    with 1 show ?thesis by (simp add: tokens.simps[of s] replace_all.simps[of s])
  qed
qed

lemmas parse_defs = parseFloat_def parse_unsigned_def parse_exponent_def is_ws_def is_digit_def
  digits_val_def digit_val_def pow10_def trim_def isValidCoordinate_def

lemma process_match_eq:
  "process_match rnd ps g = (if tag_accepted g then ps @ [make_place (rnd (length ps)) g] else ps)"
  by (cases g) (simp add: process_match_def tag_accepted_def make_place_def Let_def)

lemma foldl_process_match:
  "foldl (process_match rnd) ps gs = ps @ build_places rnd (length ps) (filter tag_accepted gs)"
  by (induction gs arbitrary: ps) (simp_all add: process_match_eq)

lemma places_render:
  "list_all wf_segment segs \<Longrightarrow>
   places (parseResponse rnd (render segs)) = build_places rnd 0 (filter tag_accepted (tags_of segs))"
  by (simp add: parseResponse_def exec_loop_render foldl_process_match)

lemma places_tokens:
  "places (parseResponse rnd s) = build_places rnd 0 (filter tag_accepted (tags_of (tokens s)))"
  by (simp add: parseResponse_def exec_loop_tokens foldl_process_match)

lemma length_build_places [simp]: "length (build_places rnd k gs) = length gs"
  by (induction gs arbitrary: k) simp_all

lemma name_build_places: "map name (build_places rnd k gs) = map (\<lambda>g. trim (fst g)) gs"
  by (induction gs arbitrary: k) (auto simp: make_place_def)

lemma tags_of_append [simp]: "tags_of (xs @ ys) = tags_of xs @ tags_of ys"
  by (induction xs rule: tags_of.induct) simp_all

lemma regex_search_no_brace: "CHR ''{'' \<notin> set t \<Longrightarrow> regex_search t = None"
  using regex_search_plain_None[of t "[]"] by simp

lemma concat_plains_no_brace:
  "list_all wf_segment segs \<Longrightarrow> CHR ''{'' \<notin> set (concat (plains_of segs))"
  by (induction segs rule: plains_of.induct) simp_all

lemma tag_accepted_iff: "tag_accepted g = (\<not> spec_rejects g)"
proof (cases g)
  case (fields n la lo ad)
  obtain t where t: "round_double 0.0001 = Fin t" using threshold_4 by blast
  show ?thesis
    unfolding fields tag_accepted_def spec_rejects_def near_origin_def isValidCoordinate_def Let_def t
    by (cases "parseFloat (replace_first CHR '','' CHR ''.'' (trim la))";
        cases "parseFloat (replace_first CHR '','' CHR ''.'' (trim lo))")
       (auto simp: not_le)
qed

lemma render_append [simp]: "render (xs @ ys) = render xs @ render ys"
  by (induction xs rule: render.induct) simp_all

lemma trim_surrounding:
  "list_all is_ws w1 \<Longrightarrow> list_all is_ws w2 \<Longrightarrow> \<not> is_ws c \<Longrightarrow> \<not> is_ws d \<Longrightarrow>
   trim (w1 @ [c] @ core @ [d] @ w2) = [c] @ core @ [d]"
proof -
  assume w: "list_all is_ws w1" "list_all is_ws w2" and c: "\<not> is_ws c" and d: "\<not> is_ws d"
  from w(1) c have 1: "dropWhile is_ws (w1 @ [c] @ core @ [d] @ w2) = [c] @ core @ [d] @ w2"
    by (simp add: dropWhile_append3 list_all_iff)
  from w(2) d have 2: "dropWhile is_ws (rev ([c] @ core @ [d] @ w2)) = rev ([c] @ core @ [d])"
    by (simp add: dropWhile_append3 list_all_iff)
  show ?thesis unfolding trim_def 1 2 by simp
qed

lemma replace_first_comma:
  "CHR '','' \<notin> set a \<Longrightarrow> replace_first CHR '','' CHR ''.'' (a @ CHR '','' # b) = a @ CHR ''.'' # b"
  by (induction a) auto

section \<open>Values of numeric fields\<close>

lemma tag_accepted_fields:
  "tag_accepted (n, la, lo, ad) =
     (isValidCoordinate (numeric_field la) \<and> isValidCoordinate (numeric_field lo)
      \<and> (js_gt (js_abs (numeric_field la)) (Fin (7378697629483821 / 2 ^ 66))
           \<or> js_gt (js_abs (numeric_field lo)) (Fin (7378697629483821 / 2 ^ 66))))"
  unfolding tag_accepted_def numeric_field_def Let_def threshold_4 by simp

lemma field_0: "numeric_field ''0'' = Fin 0"
  by (simp add: numeric_field_def parse_defs)

lemma field_0_0002: "numeric_field ''0.0002'' = Fin (7378697629483821 / 2 ^ 65)"
proof -
  have "numeric_field ''0.0002'' = round_double 0.0002"
    by (simp add: numeric_field_def parse_defs)
  also have "\<dots> = Fin (7378697629483821 / 2 ^ 65)"
    using round_double_eval[of "- 13" "0.0002" 7378697629483821] by simp
  finally show ?thesis .
qed

lemma field_edge: "numeric_field ''0.00010000000000000000001'' = Fin (7378697629483821 / 2 ^ 66)"
proof -
  have "numeric_field ''0.00010000000000000000001'' = round_double 0.00010000000000000000001"
    by (simp add: numeric_field_def parse_defs)
  also have "\<dots> = Fin (7378697629483821 / 2 ^ 66)"
    using round_double_eval[of "- 14" "0.00010000000000000000001" 7378697629483821] by simp
  finally show ?thesis .
qed

lemma field_underflow: "numeric_field ''1e-400'' = Fin 0"
proof -
  have "numeric_field ''1e-400'' = round_double (1 / 10 ^ 400)"
    by (simp add: numeric_field_def parse_defs)
  also have "\<dots> = Fin 0"
    by (rule round_double_tiny) (simp_all add: power_int_minus)
  finally show ?thesis .
qed

lemma field_north: "numeric_field ''north'' = NaN"
  by (simp add: numeric_field_def parse_defs)

lemma field_Infinity: "numeric_field ''Infinity'' = PosInf"
  by (simp add: numeric_field_def parse_defs)

lemma field_1: "numeric_field ''1'' = Fin 1"
proof -
  have "numeric_field ''1'' = round_double 1" by (simp add: numeric_field_def parse_defs)
  also have "\<dots> = Fin 1" using round_double_eval[of 0 1 "2 ^ 52"] by simp
  finally show ?thesis .
qed

lemma field_2: "numeric_field ''2'' = Fin 2"
proof -
  have "numeric_field ''2'' = round_double 2" by (simp add: numeric_field_def parse_defs)
  also have "\<dots> = Fin 2" using round_double_eval[of 1 2 "2 ^ 52"] by simp
  finally show ?thesis .
qed

lemma field_1000: "numeric_field ''1000'' = Fin 1000"
proof -
  have "numeric_field ''1000'' = round_double 1000" by (simp add: numeric_field_def parse_defs)
  also have "\<dots> = Fin 1000" using round_double_eval[of 9 1000 8796093022208000] by simp
  finally show ?thesis .
qed

lemma field_999: "numeric_field ''999'' = Fin 999"
proof -
  have "numeric_field ''999'' = round_double 999" by (simp add: numeric_field_def parse_defs)
  also have "\<dots> = Fin 999" using round_double_eval[of 9 999 8787296929185792] by simp
  finally show ?thesis .
qed

lemma field_40_71: "numeric_field ''40,71'' = Fin (5729423150945403 / 2 ^ 47)"
proof -
  have "numeric_field ''40,71'' = round_double 40.71" by (simp add: numeric_field_def parse_defs)
  also have "\<dots> = Fin (5729423150945403 / 2 ^ 47)"
    using round_double_eval[of 5 "40.71" 5729423150945403] by simp
  finally show ?thesis .
qed

lemma field_74: "numeric_field ''-74,00'' = Fin (- 74)"
proof -
  have "numeric_field ''-74,00'' = js_neg (round_double 74)" by (simp add: numeric_field_def parse_defs)
  also have "\<dots> = Fin (- 74)" using round_double_eval[of 6 74 5207287069147136] by simp
  finally show ?thesis .
qed

lemma field_pad_40_71: "numeric_field '' 40,71 '' = Fin (5729423150945403 / 2 ^ 47)"
  using field_40_71 by (simp add: numeric_field_def trim_def is_ws_def)

lemma field_pad_74: "numeric_field ''  -74,00'' = Fin (- 74)"
  using field_74 by (simp add: numeric_field_def trim_def is_ws_def)

section \<open>Properties of the camera effect\<close>

lemma MapUpdater_follow_flag:
  "isFollowingUser p \<Longrightarrow> MapUpdater p m r = follow_user p m r"
  by (cases "routeData p") (simp_all add: MapUpdater_def)

lemma MapUpdater_no_route:
  "\<not> route_to_fit p \<Longrightarrow> MapUpdater p m r = follow_user p m r"
  by (cases "routeData p") (simp_all add: MapUpdater_def route_to_fit_def)

lemma mode_not_Idle: "(mode_of n f \<noteq> Idle) = f"
  by (simp add: mode_of_def)

lemma update_center_route_irrelevant:
  "update_center (p\<lparr>routeData := x\<rparr>) m r = update_center p m r"
  by (cases "center p") (simp_all add: update_center_def)

lemma follow_user_route_irrelevant:
  "follow_user (p\<lparr>routeData := x\<rparr>) m r = follow_user p m r"
  by (cases "userLocation p") (simp_all add: follow_user_def update_center_route_irrelevant)

lemma follow_user_valid:
  "isNavigating p \<or> isFollowingUser p \<Longrightarrow> userLocation p = Some u \<Longrightarrow>
   isValidCoord (lat u) (lng u) \<Longrightarrow>
   follow_user p m r =
     (if js_gt (displacement (map_center m) (lat u, lng u)) (round_double 0.0001)
      then (SetView (lat u) (lng u) (map_zoom m) 1.0, r) else (NoOp, r))"
  by (simp add: follow_user_def displacement_def Let_def)

lemma follow_user_never_fits: "fst (follow_user p m r) \<noteq> FitBounds pts mz"
  by (auto simp: follow_user_def update_center_def Let_def split: option.splits)

lemma displacement_quarter: "displacement (Fin x, Fin y) (Fin x, Fin (y + 1 / 4)) = Fin (1 / 4)"
proof -
  have 1: "round_double (- (1 / 4)) = Fin (- (1 / 4))"
    using round_double_eval[of "- 2" "- (1 / 4)" "- (2 ^ 52)"] by simp
  have 2: "round_double (1 / 16) = Fin (1 / 16)"
    using round_double_eval[of "- 4" "1 / 16" "2 ^ 52"] by simp
  have 3: "round_double (1 / 4) = Fin (1 / 4)"
    using round_double_eval[of "- 2" "1 / 4" "2 ^ 52"] by simp
  have 4: "sqrt (1 / 16) = 1 / 4"
    by (rule real_sqrt_unique) (simp_all add: power2_eq_square)
  show ?thesis
    by (simp add: displacement_def js_sub_def 1 2 3 4)
qed

lemma displacement_small:
  "displacement (Fin x, Fin y) (Fin x, Fin (y + 1 / 65536)) = Fin (1 / 65536)"
proof -
  have 1: "round_double (- (1 / 65536)) = Fin (- (1 / 65536))"
    using round_double_eval[of "- 16" "- (1 / 65536)" "- (2 ^ 52)"] by simp
  have 2: "round_double (1 / 4294967296) = Fin (1 / 4294967296)"
    using round_double_eval[of "- 32" "1 / 4294967296" "2 ^ 52"] by simp
  have 3: "round_double (1 / 65536) = Fin (1 / 65536)"
    using round_double_eval[of "- 16" "1 / 65536" "2 ^ 52"] by simp
  have 4: "sqrt (1 / 4294967296) = 1 / 65536"
    by (rule real_sqrt_unique) (simp_all add: power2_eq_square)
  show ?thesis
    by (simp add: displacement_def js_sub_def 1 2 3 4)
qed

lemma beyond_threshold: "js_gt (Fin (1 / 4)) (round_double 0.0001)"
  unfolding threshold_4 by simp

lemma within_threshold: "\<not> js_gt (Fin (1 / 65536)) (round_double 0.0001)"
  unfolding threshold_4 by simp

lemma displacement_at_threshold:
  "displacement (Fin 0, Fin 0) (Fin (7378697629483821 / 2 ^ 66), Fin 0) = Fin (7378697629483821 / 2 ^ 66)"
proof -
  have 1: "round_double (- (7378697629483821 / 2 ^ 66)) = Fin (- (7378697629483821 / 2 ^ 66))"
    using round_double_eval[of "- 14" "- (7378697629483821 / 2 ^ 66)" "- 7378697629483821"] by simp
  have 2: "round_double (7378697629483821 / 2 ^ 66 * (7378697629483821 / 2 ^ 66)) = Fin (6044629098073146 / 2 ^ 79)"
    using round_double_eval[of "- 27" "7378697629483821 / 2 ^ 66 * (7378697629483821 / 2 ^ 66)" 6044629098073146] by simp
  have 3: "round_double (6044629098073146 / 2 ^ 79) = Fin (6044629098073146 / 2 ^ 79)"
    using round_double_eval[of "- 27" "6044629098073146 / 2 ^ 79" 6044629098073146] by simp
  have 4: "round_double (sqrt (6044629098073146 / 2 ^ 79)) = Fin (7378697629483821 / 2 ^ 66)"
    using round_double_sqrt_eval[of "- 14" "6044629098073146 / 2 ^ 79" 7378697629483821]
    by (simp add: power2_eq_square)
  show ?thesis
    using 1 2 3 4 by (simp add: displacement_def js_sub_def)
qed


lemma double_48_0001: "round_double 48.0001 = Fin (6755413514804580 / 2 ^ 47)"
  using round_double_eval[of 5 "48.0001" 6755413514804580] by simp

lemma displacement_past_threshold:
  "displacement (Fin 48, Fin 0) (Fin (6755413514804580 / 2 ^ 47), Fin 0) = Fin (7378697629728768 / 2 ^ 66)"
proof -
  have 1: "round_double (48 - 6755413514804580 / 2 ^ 47) = Fin (- (7378697629728768 / 2 ^ 66))"
    using round_double_eval[of "- 14" "48 - 6755413514804580 / 2 ^ 47" "- 7378697629728768"] by simp
  have 2: "round_double (7378697629728768 / 2 ^ 66 * (7378697629728768 / 2 ^ 66)) = Fin (6044629098474468 / 2 ^ 79)"
    using round_double_eval[of "- 27" "7378697629728768 / 2 ^ 66 * (7378697629728768 / 2 ^ 66)" 6044629098474468] by simp
  have 3: "round_double (6044629098474468 / 2 ^ 79) = Fin (6044629098474468 / 2 ^ 79)"
    using round_double_eval[of "- 27" "6044629098474468 / 2 ^ 79" 6044629098474468] by simp
  have 4: "round_double (sqrt (6044629098474468 / 2 ^ 79)) = Fin (7378697629728768 / 2 ^ 66)"
    using round_double_sqrt_eval[of "- 14" "6044629098474468 / 2 ^ 79" 7378697629728768]
    by (simp add: power2_eq_square)
  show ?thesis
    using 1 2 3 4 by (simp add: displacement_def js_sub_def)
qed

lemma at_threshold: "\<not> js_gt (Fin (7378697629483821 / 2 ^ 66)) (round_double 0.0001)"
  unfolding threshold_4 by simp

lemma past_threshold: "js_gt (Fin (7378697629728768 / 2 ^ 66)) (round_double 0.0001)"
  unfolding threshold_4 by simp








lemma target_zoom_setView [simp]: "target_zoom p (setView m a b (target_zoom p m)) = target_zoom p m"
  by (simp add: target_zoom_def setView_def split: option.splits)




lemma drag_makes_idle:
  "mode_of (app_isNavigating (handleMapDrag a)) (app_isFollowingUser (handleMapDrag a)) = Idle"
  by (simp add: handleMapDrag_def mode_of_def)

lemma position_keeps_mode:
  "app_isFollowingUser (position_fix False la lo acc a) = app_isFollowingUser a
   \<and> app_isNavigating (position_fix False la lo acc a) = app_isNavigating a"
  by (simp add: position_fix_def watch_success_def mount_onSuccess_def Let_def)

lemma invalid_center_ignored:
  "center p = Some c \<Longrightarrow> \<not> isValidCoord (lat c) (lng c) \<Longrightarrow>
   MapUpdater p m r = MapUpdater (p\<lparr>center := None\<rparr>) m r \<and> snd (MapUpdater p m r) = r"
proof -
  assume c: "center p = Some c" "\<not> isValidCoord (lat c) (lng c)"
  have 1: "update_center p m r = (NoOp, r)" "update_center (p\<lparr>center := None\<rparr>) m r = (NoOp, r)"
    using c by (simp_all add: update_center_def)
  have 2: "follow_user p m r = follow_user (p\<lparr>center := None\<rparr>) m r"
    by (cases "userLocation p") (simp_all add: follow_user_def 1)
  have 3: "snd (follow_user p m r) = r"
    by (cases "userLocation p") (simp_all add: follow_user_def 1 Let_def)
  show ?thesis
    by (cases "routeData p") (simp_all add: MapUpdater_def 2[symmetric] 3 split: option.splits)
qed

lemma invalid_position_ignored:
  "userLocation p = Some u \<Longrightarrow> \<not> isValidCoord (lat u) (lng u) \<Longrightarrow>
   MapUpdater p m r = MapUpdater (p\<lparr>userLocation := None\<rparr>) m r"
proof -
  assume u: "userLocation p = Some u" "\<not> isValidCoord (lat u) (lng u)"
  have 1: "update_center (p\<lparr>userLocation := None\<rparr>) m r = update_center p m r"
    by (cases "center p") (simp_all add: update_center_def)
  have 2: "follow_user p m r = follow_user (p\<lparr>userLocation := None\<rparr>) m r"
    using u by (simp add: follow_user_def 1)
  show ?thesis
    by (cases "routeData p") (simp_all add: MapUpdater_def 2)
qed

lemma fitBounds_no_valid_point:
  "list_all (\<lambda>pl. \<not> isValidCoord (lat (coordinates pl)) (lng (coordinates pl))) ps \<Longrightarrow>
   fitBounds ps = NoOp"
  by (simp add: fitBounds_def list_all_iff filter_empty_conv)

lemma fitBounds_never_throws: "fitBounds ps \<noteq> Threw"
  by (simp add: fitBounds_def Let_def split: option.splits)

lemma single_tag: "render [Tag g] = tag_text g"
  by simp

lemma near_origin_Fin: "near_origin (Fin a) = (\<bar>a\<bar> \<le> 7378697629483821 / 2 ^ 66)"
  unfolding near_origin_def threshold_4 by simp

section \<open>Claims on the extraction protocol\<close>

text \<open>
  C4: every span the scan matches is removed from the display text, whether the tag was
  accepted as a place or rejected: the display text of any input is its text outside
  the matches, whatever the coordinates of the matched tags; and for an input made of
  well-formed tags and of stretches of text without an opening brace, the display text
  is these stretches and the pattern occurs nowhere in it.
\<close>

theorem strip_removes_matched_tags:
  "cleanText (parseResponse rnd text) = concat (plains_of (tokens text))
   \<and> (list_all wf_segment segs \<longrightarrow>
        cleanText (parseResponse rnd (render segs)) = concat (plains_of segs)
        \<and> regex_search (cleanText (parseResponse rnd (render segs))) = None)"
proof (intro conjI impI)
  show "cleanText (parseResponse rnd text) = concat (plains_of (tokens text))"
    by (simp add: parseResponse_def replace_all_tokens)
next
  assume w: "list_all wf_segment segs"
  then show c: "cleanText (parseResponse rnd (render segs)) = concat (plains_of segs)"
    by (simp add: parseResponse_def replace_all_render)
  from w show "regex_search (cleanText (parseResponse rnd (render segs))) = None"
    unfolding c by (intro regex_search_no_brace concat_plains_no_brace)
qed

theorem strip_removes_matched_tags_witness:
  "list_all wf_segment [Plain ''Try '', Tag (''Cafe'', ''40.7'', ''-74.0'', ''1 Main St''), Plain '' or '', Tag (''Ghost'', ''0'', ''0'', ''Nowhere''), Plain ''.'']
   \<and> cleanText (parseResponse sample_ids ''Try {{DATA:Cafe|40.7|-74.0|1 Main St}} or {{DATA:Ghost|0|0|Nowhere}}.'') = ''Try  or .''
   \<and> regex_search ''Try  or .'' = None"
  using strip_removes_matched_tags[of sample_ids "[]" "[Plain ''Try '', Tag (''Cafe'', ''40.7'', ''-74.0'', ''1 Main St''), Plain '' or '', Tag (''Ghost'', ''0'', ''0'', ''Nowhere''), Plain ''.'']"]
  by (simp add: match_here_def)

text \<open>
  C5: a matched tag yields no place exactly when it meets the spec's rejection rule
  (a numeric field that does not parse or is not finite, or both coordinates within
  0.0001 degrees of the origin), and one place otherwise: in a text of well-formed tags
  and brace-free stretches, a tag adds nothing to the number of places if the rule
  rejects it, and one if not. The tag Ghost at 0, 0 gives no place, as do a tag whose
  latitude is a word, one whose latitude is Infinity, one whose latitude is a decimal
  that rounds to the double 0.0001 and one whose latitude underflows to 0; the tag Real
  at 0.0002, 0.0002 gives exactly one.
\<close>

theorem origin_and_unparsable_tags_dropped:
  "list_all wf_segment (before @ Tag g # after) \<Longrightarrow>
   length (places (parseResponse rnd (render (before @ Tag g # after))))
   = length (places (parseResponse rnd (render (before @ after)))) + (if spec_rejects g then 0 else 1)"
proof -
  assume w: "list_all wf_segment (before @ Tag g # after)"
  then have w': "list_all wf_segment (before @ after)" by simp
  show ?thesis
    unfolding places_render[OF w] places_render[OF w']
    by (simp add: tag_accepted_iff)
qed

theorem origin_and_unparsable_tags_dropped_witness:
  "places (parseResponse sample_ids ''{{DATA:Ghost|0|0|Nowhere}}'') = []
   \<and> length (places (parseResponse sample_ids ''{{DATA:Real|0.0002|0.0002|Somewhere}}'')) = 1
   \<and> places (parseResponse sample_ids ''{{DATA:Blank|north|1|Somewhere}}'') = []
   \<and> places (parseResponse sample_ids ''{{DATA:Far|Infinity|1|Somewhere}}'') = []
   \<and> places (parseResponse sample_ids ''{{DATA:R|0.00010000000000000000001|0|round}}'') = []
   \<and> places (parseResponse sample_ids ''{{DATA:Tiny|1e-400|0|underflow}}'') = []"
proof -
  have g: "spec_rejects (''Ghost'', ''0'', ''0'', ''Nowhere'')"
    using tag_accepted_iff[of "(''Ghost'', ''0'', ''0'', ''Nowhere'')"]
    by (simp add: tag_accepted_fields field_0)
  have r: "\<not> spec_rejects (''Real'', ''0.0002'', ''0.0002'', ''Somewhere'')"
    using tag_accepted_iff[of "(''Real'', ''0.0002'', ''0.0002'', ''Somewhere'')"]
    by (simp add: tag_accepted_fields field_0_0002 isValidCoordinate_def)
  have b: "spec_rejects (''Blank'', ''north'', ''1'', ''Somewhere'')"
    using tag_accepted_iff[of "(''Blank'', ''north'', ''1'', ''Somewhere'')"]
    by (simp add: tag_accepted_fields field_north field_1 isValidCoordinate_def)
  have h: "spec_rejects (''Far'', ''Infinity'', ''1'', ''Somewhere'')"
    using tag_accepted_iff[of "(''Far'', ''Infinity'', ''1'', ''Somewhere'')"]
    by (simp add: tag_accepted_fields field_Infinity field_1 isValidCoordinate_def)
  have e: "spec_rejects (''R'', ''0.00010000000000000000001'', ''0'', ''round'')"
    using tag_accepted_iff[of "(''R'', ''0.00010000000000000000001'', ''0'', ''round'')"]
    by (simp add: tag_accepted_fields field_edge field_0)
  have u: "spec_rejects (''Tiny'', ''1e-400'', ''0'', ''underflow'')"
    using tag_accepted_iff[of "(''Tiny'', ''1e-400'', ''0'', ''underflow'')"]
    by (simp add: tag_accepted_fields field_underflow field_0)
  from origin_and_unparsable_tags_dropped[of "[]" "(''Ghost'', ''0'', ''0'', ''Nowhere'')" "[]" sample_ids]
       origin_and_unparsable_tags_dropped[of "[]" "(''Real'', ''0.0002'', ''0.0002'', ''Somewhere'')" "[]" sample_ids]
       origin_and_unparsable_tags_dropped[of "[]" "(''Blank'', ''north'', ''1'', ''Somewhere'')" "[]" sample_ids]
       origin_and_unparsable_tags_dropped[of "[]" "(''Far'', ''Infinity'', ''1'', ''Somewhere'')" "[]" sample_ids]
       origin_and_unparsable_tags_dropped[of "[]" "(''R'', ''0.00010000000000000000001'', ''0'', ''round'')" "[]" sample_ids]
       origin_and_unparsable_tags_dropped[of "[]" "(''Tiny'', ''1e-400'', ''0'', ''underflow'')" "[]" sample_ids]
       g r b h e u
  show ?thesis by (simp add: parseResponse_def)
qed

text \<open>
  C8: for every input text, the places come in the order of the accepted tags in the
  text: the text is its \<open>tokens\<close> written out, and the names of the places are the
  trimmed names of the accepted tags among these tokens, in order. For a text with the
  tags A and B among brace-free stretches, the places are A then B.
\<close>

theorem places_keep_text_order:
  "render (tokens input) = input
   \<and> map name (places (parseResponse rnd input))
       = map (\<lambda>g. trim (fst g)) (filter tag_accepted (tags_of (tokens input)))
   \<and> (CHR ''{'' \<notin> set pre \<and> CHR ''{'' \<notin> set mid \<and> CHR ''{'' \<notin> set post \<longrightarrow>
        map name (places (parseResponse rnd (pre @ ''{{DATA:A|1|1|x}}'' @ mid @ ''{{DATA:B|2|2|y}}'' @ post)))
        = [''A'', ''B''])"
proof (intro conjI impI)
  show "render (tokens input) = input" by (rule render_tokens)
  show "map name (places (parseResponse rnd input))
       = map (\<lambda>g. trim (fst g)) (filter tag_accepted (tags_of (tokens input)))"
    by (simp add: places_tokens name_build_places)
  assume b: "CHR ''{'' \<notin> set pre \<and> CHR ''{'' \<notin> set mid \<and> CHR ''{'' \<notin> set post"
  let ?segs = "[Plain pre, Tag (''A'', ''1'', ''1'', ''x''), Plain mid, Tag (''B'', ''2'', ''2'', ''y''), Plain post]"
  have w: "list_all wf_segment ?segs" using b by simp
  have r: "render ?segs = pre @ ''{{DATA:A|1|1|x}}'' @ mid @ ''{{DATA:B|2|2|y}}'' @ post" by simp
  have a: "tag_accepted (''A'', ''1'', ''1'', ''x'')" "tag_accepted (''B'', ''2'', ''2'', ''y'')"
    by (simp_all add: tag_accepted_fields field_1 field_2 isValidCoordinate_def)
  have t: "trim ''A'' = ''A''" "trim ''B'' = ''B''" by (simp_all add: trim_def is_ws_def)
  show "map name (places (parseResponse rnd (pre @ ''{{DATA:A|1|1|x}}'' @ mid @ ''{{DATA:B|2|2|y}}'' @ post)))
        = [''A'', ''B'']"
    unfolding r[symmetric] places_render[OF w] by (simp add: a t make_place_def)
qed

theorem places_keep_text_order_witness:
  "map name (places (parseResponse sample_ids
      ''See {{DATA:A|1|1|x}}, then {{DATA:B|2|2|y}}!'')) = [''A'', ''B'']"
  using places_keep_text_order[where rnd = sample_ids and input = "[]" and pre = "''See ''" and mid = "'', then ''" and post = "''!''"]
  by simp

text \<open>
  C9: for every matched tag that is accepted, the place holds the trimmed name and
  address, and as latitude and longitude what \<open>parseFloat\<close> reads from the trimmed
  field with its decimal comma replaced by a point. The tag C with 40,71 and -74,00
  gives latitude 40.71 (the double nearest to it) and longitude -74, also with blanks
  around the fields.
\<close>

theorem fields_trimmed_and_comma_normalised:
  "list_all wf_segment segs \<Longrightarrow>
   map (\<lambda>pl. (name pl, lat (coordinates pl), lng (coordinates pl), address pl))
       (places (parseResponse rnd (render segs)))
   = map (\<lambda>(n, la, lo, ad).
            (trim n,
             parseFloat (replace_first CHR '','' CHR ''.'' (trim la)),
             parseFloat (replace_first CHR '','' CHR ''.'' (trim lo)),
             Some (trim ad)))
         (filter tag_accepted (tags_of segs))"
proof -
  have b: "map (\<lambda>pl. (name pl, lat (coordinates pl), lng (coordinates pl), address pl))
             (build_places rnd k gs)
         = map (\<lambda>(n, la, lo, ad).
            (trim n,
             parseFloat (replace_first CHR '','' CHR ''.'' (trim la)),
             parseFloat (replace_first CHR '','' CHR ''.'' (trim lo)),
             Some (trim ad))) gs" for k gs
    by (induction gs arbitrary: k) (auto simp: make_place_def)
  assume "list_all wf_segment segs"
  then show ?thesis by (simp add: places_render b)
qed

theorem fields_trimmed_and_comma_normalised_witness:
  "map (\<lambda>pl. (name pl, lat (coordinates pl), lng (coordinates pl), address pl))
       (places (parseResponse sample_ids ''{{DATA:C|40,71|-74,00|NY}}''))
     = [(''C'', Fin (5729423150945403 / 2 ^ 47), Fin (- 74), Some ''NY'')]
   \<and> round_double 40.71 = Fin (5729423150945403 / 2 ^ 47)
   \<and> map (\<lambda>pl. (name pl, lat (coordinates pl), lng (coordinates pl), address pl))
       (places (parseResponse sample_ids ''{{DATA: C | 40,71 |  -74,00|NY  }}''))
     = [(''C'', Fin (5729423150945403 / 2 ^ 47), Fin (- 74), Some ''NY'')]"
proof -
  have a: "tag_accepted (''C'', ''40,71'', ''-74,00'', ''NY'')"
          "tag_accepted ('' C '', '' 40,71 '', ''  -74,00'', ''NY  '')"
    by (simp_all add: tag_accepted_fields field_40_71 field_74 field_pad_40_71 field_pad_74
        isValidCoordinate_def)
  have v: "round_double 40.71 = Fin (5729423150945403 / 2 ^ 47)"
    using round_double_eval[of 5 "40.71" 5729423150945403] by simp
  have t: "trim ''C'' = ''C''" "trim '' C '' = ''C''" "trim ''NY'' = ''NY''" "trim ''NY  '' = ''NY''"
    by (simp_all add: trim_def is_ws_def)
  from fields_trimmed_and_comma_normalised[of "[Tag (''C'', ''40,71'', ''-74,00'', ''NY'')]" sample_ids]
       fields_trimmed_and_comma_normalised[of "[Tag ('' C '', '' 40,71 '', ''  -74,00'', ''NY  '')]" sample_ids]
       a v
  show ?thesis
    using field_40_71 field_74 field_pad_40_71 field_pad_74
    by (simp add: t numeric_field_def)
qed

text \<open>
  C10, as claimed: every tag whose numeric fields parse to finite numbers is accepted
  and produces a place. The fields of the tag below parse to the finite number 0, and
  the tag produces no place.
\<close>

theorem finite_origin_tag_rejected_counterexample:
  "parseFloat (replace_first CHR '','' CHR ''.'' (trim ''0'')) = Fin 0
   \<and> places (parseResponse sample_ids ''{{DATA:Null Island|0|0|Gulf of Guinea}}'') = []"
proof -
  have w: "list_all wf_segment [Tag (''Null Island'', ''0'', ''0'', ''Gulf of Guinea'')]" by simp
  have n: "\<not> tag_accepted (''Null Island'', ''0'', ''0'', ''Gulf of Guinea'')"
    by (simp add: tag_accepted_fields field_0)
  show ?thesis
    using places_render[OF w, of sample_ids] n field_0 by (simp add: numeric_field_def)
qed

text \<open>
  C10, amended: validation never checks a geographic range. Both validators hold of
  every finite number, of any magnitude; and a tag whose numeric fields parse to finite
  numbers, of any magnitude, produces a place with these numbers, unless both are
  within 0.0001 of zero, in which case it produces none. Latitude 1000 with longitude
  999 gives a place.
\<close>

theorem finite_coordinates_not_range_checked:
  "isValidCoord (Fin x) (Fin y) \<and> isValidCoordinate (Fin x)
   \<and> (CHR ''{'' \<notin> set pre \<and> CHR ''{'' \<notin> set post \<and> wf_tag (n, la, lo, ad)
        \<and> parseFloat (replace_first CHR '','' CHR ''.'' (trim la)) = Fin a
        \<and> parseFloat (replace_first CHR '','' CHR ''.'' (trim lo)) = Fin b \<longrightarrow>
      map coordinates (places (parseResponse rnd (pre @ tag_text (n, la, lo, ad) @ post)))
        = (if near_origin (Fin a) \<and> near_origin (Fin b) then []
           else [\<lparr>lat = Fin a, lng = Fin b, accuracy = None\<rparr>]))"
proof (intro conjI impI)
  show "isValidCoord (Fin x) (Fin y)" by (simp add: isValidCoord_def)
  show "isValidCoordinate (Fin x)" by (simp add: isValidCoordinate_def)
  assume h: "CHR ''{'' \<notin> set pre \<and> CHR ''{'' \<notin> set post \<and> wf_tag (n, la, lo, ad)
        \<and> parseFloat (replace_first CHR '','' CHR ''.'' (trim la)) = Fin a
        \<and> parseFloat (replace_first CHR '','' CHR ''.'' (trim lo)) = Fin b"
  then have b: "CHR ''{'' \<notin> set pre" "CHR ''{'' \<notin> set post" and w: "wf_tag (n, la, lo, ad)"
    and p: "parseFloat (replace_first CHR '','' CHR ''.'' (trim la)) = Fin a"
           "parseFloat (replace_first CHR '','' CHR ''.'' (trim lo)) = Fin b"
    by simp_all
  let ?segs = "[Plain pre, Tag (n, la, lo, ad), Plain post]"
  have ws: "list_all wf_segment ?segs" using b w by simp
  have r: "render ?segs = pre @ tag_text (n, la, lo, ad) @ post" by simp
  have acc: "tag_accepted (n, la, lo, ad) = (\<not> (near_origin (Fin a) \<and> near_origin (Fin b)))"
    using p by (simp add: tag_accepted_iff spec_rejects_def)
  have "map coordinates (places (parseResponse rnd (render ?segs)))
     = (if near_origin (Fin a) \<and> near_origin (Fin b) then []
        else [\<lparr>lat = Fin a, lng = Fin b, accuracy = None\<rparr>])"
    unfolding places_render[OF ws] using acc p by (simp add: make_place_def)
  then show "map coordinates (places (parseResponse rnd (pre @ tag_text (n, la, lo, ad) @ post)))
        = (if near_origin (Fin a) \<and> near_origin (Fin b) then []
           else [\<lparr>lat = Fin a, lng = Fin b, accuracy = None\<rparr>])"
    by simp
qed

theorem finite_coordinates_not_range_checked_witness:
  "map coordinates (places (parseResponse sample_ids ''{{DATA:Far|1000|999|Off the map}}''))
     = [\<lparr>lat = Fin 1000, lng = Fin 999, accuracy = None\<rparr>]
   \<and> isValidCoord (Fin 1000) (Fin 999)
   \<and> map coordinates (places (parseResponse sample_ids ''{{DATA:R|0.00010000000000000000001|0|round}}'')) = []"
  using finite_coordinates_not_range_checked[of 1000 999 "[]" "[]" "''Far''" "''1000''" "''999''" "''Off the map''" 1000 999 sample_ids]
        finite_coordinates_not_range_checked[of 0 0 "[]" "[]" "''R''" "''0.00010000000000000000001''" "''0''" "''round''"
           "7378697629483821 / 2 ^ 66" 0 sample_ids]
        field_1000 field_999 field_edge field_0
  by (simp add: numeric_field_def near_origin_Fin)

section \<open>Claims on the camera\<close>

text \<open>
  C1: in every state whose mode is Following or Navigating, route data is suppressed:
  the effect produces what it produces without route data, never a fit of bounds, and
  with a valid user position it produces the instruction derived from following the
  user (a move to the position when the camera is more than 0.0001 degrees from it,
  nothing otherwise). The route is fitted only when the mode is neither Following nor
  Navigating, and in that mode a non-empty route the library accepts is fitted.
\<close>

theorem route_fit_suppressed_by_follow_flag:
  "(mode_of (isNavigating p) (isFollowingUser p) \<noteq> Idle \<longrightarrow>
      MapUpdater p m r = MapUpdater (p\<lparr>routeData := None\<rparr>) m r
      \<and> fst (MapUpdater p m r) \<noteq> FitBounds pts mz)
   \<and> (mode_of (isNavigating p) (isFollowingUser p) \<noteq> Idle \<and> userLocation p = Some u
        \<and> isValidCoord (lat u) (lng u) \<longrightarrow>
      MapUpdater p m r =
        (if js_gt (displacement (map_center m) (lat u, lng u)) (round_double 0.0001)
         then (SetView (lat u) (lng u) (map_zoom m) 1.0, r) else (NoOp, r)))
   \<and> (fst (MapUpdater p m r) = FitBounds pts mz \<longrightarrow>
        mode_of (isNavigating p) (isFollowingUser p) = Idle \<and> route_to_fit p)
   \<and> (mode_of (isNavigating p) (isFollowingUser p) = Idle \<and> routeData p = Some rd
        \<and> route_coordinates rd \<noteq> [] \<and> latLngBounds (route_coordinates rd) = Some b \<longrightarrow>
      MapUpdater p m r = (FitBounds b None, r))"
proof (intro conjI impI)
  assume "mode_of (isNavigating p) (isFollowingUser p) \<noteq> Idle"
  then have f: "isFollowingUser p" by (simp add: mode_not_Idle)
  then show "MapUpdater p m r = MapUpdater (p\<lparr>routeData := None\<rparr>) m r"
    by (simp add: MapUpdater_follow_flag follow_user_route_irrelevant)
  from f show "fst (MapUpdater p m r) \<noteq> FitBounds pts mz"
    by (simp add: MapUpdater_follow_flag follow_user_never_fits)
next
  assume a: "mode_of (isNavigating p) (isFollowingUser p) \<noteq> Idle \<and> userLocation p = Some u
        \<and> isValidCoord (lat u) (lng u)"
  then have f: "isFollowingUser p" by (simp add: mode_not_Idle)
  with a show "MapUpdater p m r =
        (if js_gt (displacement (map_center m) (lat u, lng u)) (round_double 0.0001)
         then (SetView (lat u) (lng u) (map_zoom m) 1.0, r) else (NoOp, r))"
    by (simp add: MapUpdater_follow_flag follow_user_valid)
next
  assume b: "fst (MapUpdater p m r) = FitBounds pts mz"
  have "\<not> isFollowingUser p"
  proof
    assume "isFollowingUser p"
    then have "MapUpdater p m r = follow_user p m r" by (rule MapUpdater_follow_flag)
    with b show False by (simp add: follow_user_never_fits)
  qed
  then show "mode_of (isNavigating p) (isFollowingUser p) = Idle" by (simp add: mode_of_def)
  show "route_to_fit p"
  proof (rule ccontr)
    assume "\<not> route_to_fit p"
    then have "MapUpdater p m r = follow_user p m r" by (rule MapUpdater_no_route)
    with b show False by (simp add: follow_user_never_fits)
  qed
next
  assume a: "mode_of (isNavigating p) (isFollowingUser p) = Idle \<and> routeData p = Some rd
        \<and> route_coordinates rd \<noteq> [] \<and> latLngBounds (route_coordinates rd) = Some b"
  then have f: "\<not> isFollowingUser p" by (simp add: mode_of_def split: if_splits)
  from a have "b = route_coordinates rd" by (simp add: latLngBounds_def split: if_splits)
  with a f show "MapUpdater p m r = (FitBounds b None, r)"
    by (simp add: MapUpdater_def bounds_isValid_def)
qed

theorem route_fit_suppressed_by_follow_flag_witness:
  "mode_of False True = Following
   \<and> MapUpdater
        \<lparr>center = Some \<lparr>lat = Fin 48.5, lng = Fin 2.25, accuracy = None\<rparr>, zoom = Some (Fin 14),
         userLocation = Some \<lparr>lat = Fin 48.5, lng = Fin 2.5, accuracy = Some (Fin 5)\<rparr>,
         isNavigating = False,
         routeData = Some \<lparr>route_coordinates = [(Fin 48.5, Fin 2.5), (Fin 49, Fin 2.75)],
                           distance = Fin 7000, duration = Fin 900\<rparr>,
         isFollowingUser = True\<rparr>
        \<lparr>map_center = (Fin 48.5, Fin 2.25), map_zoom = Fin 14\<rparr>
        \<lparr>lastAppliedCenter = None, lastAppliedZoom = None\<rparr>
     = (SetView (Fin 48.5) (Fin 2.5) (Fin 14) 1.0,
        \<lparr>lastAppliedCenter = None, lastAppliedZoom = None\<rparr>)
   \<and> mode_of False False = Idle
   \<and> MapUpdater
        \<lparr>center = Some \<lparr>lat = Fin 48.5, lng = Fin 2.25, accuracy = None\<rparr>, zoom = Some (Fin 14),
         userLocation = Some \<lparr>lat = Fin 48.5, lng = Fin 2.5, accuracy = Some (Fin 5)\<rparr>,
         isNavigating = False,
         routeData = Some \<lparr>route_coordinates = [(Fin 48.5, Fin 2.5), (Fin 49, Fin 2.75)],
                           distance = Fin 7000, duration = Fin 900\<rparr>,
         isFollowingUser = False\<rparr>
        \<lparr>map_center = (Fin 48.5, Fin 2.25), map_zoom = Fin 14\<rparr>
        \<lparr>lastAppliedCenter = None, lastAppliedZoom = None\<rparr>
     = (FitBounds [(Fin 48.5, Fin 2.5), (Fin 49, Fin 2.75)] None,
        \<lparr>lastAppliedCenter = None, lastAppliedZoom = None\<rparr>)"
proof -
  let ?u = "\<lparr>lat = Fin 48.5, lng = Fin 2.5, accuracy = Some (Fin 5)\<rparr>"
  let ?rd = "\<lparr>route_coordinates = [(Fin 48.5, Fin 2.5), (Fin 49, Fin 2.75)],
                           distance = Fin 7000, duration = Fin 900\<rparr>"
  let ?p = "\<lambda>f. \<lparr>center = Some \<lparr>lat = Fin 48.5, lng = Fin 2.25, accuracy = None\<rparr>, zoom = Some (Fin 14),
         userLocation = Some ?u, isNavigating = False, routeData = Some ?rd, isFollowingUser = f\<rparr>"
  let ?m = "\<lparr>map_center = (Fin 48.5, Fin 2.25), map_zoom = Fin 14\<rparr>"
  let ?r = "\<lparr>lastAppliedCenter = None, lastAppliedZoom = None\<rparr>"
  have d: "displacement (map_center ?m) (lat ?u, lng ?u) = Fin (1 / 4)"
    using displacement_quarter[of "48.5" "2.25"] by simp
  have 1: "MapUpdater (?p True) ?m ?r = (SetView (Fin 48.5) (Fin 2.5) (Fin 14) 1.0, ?r)"
    using route_fit_suppressed_by_follow_flag[of "?p True" ?m ?r _ _ ?u, THEN conjunct2, THEN conjunct1] beyond_threshold d
    by (simp add: mode_of_def isValidCoord_def)
  have 2: "MapUpdater (?p False) ?m ?r = (FitBounds [(Fin 48.5, Fin 2.5), (Fin 49, Fin 2.75)] None, ?r)"
    using route_fit_suppressed_by_follow_flag[of "?p False" ?m ?r _ _ _ ?rd "[(Fin 48.5, Fin 2.5), (Fin 49, Fin 2.75)]",
             THEN conjunct2, THEN conjunct2, THEN conjunct2]
    by (simp add: mode_of_def latLngBounds_def)
  from 1 2 show ?thesis by (simp add: mode_of_def)
qed

text \<open>
  C3: while the mode is Following or Navigating, a valid position recentres the camera
  on it if and only if its distance from the centre of the camera exceeds 0.0001
  degrees, and does nothing otherwise; so after a position has been applied, a next
  position within 0.0001 degrees of it is a no-op. The distance is the one the effect
  computes, in double arithmetic, and 0.0001 is the double the source writes. Of two
  positions 1/65536 of a degree (less than 2 metres) apart, the first a quarter of a
  degree from the camera, the first is applied and the second is not. A position at
  latitude 0.0001 with the camera at 0, 0 is not applied (the distance is the threshold
  itself); a position at latitude 48.0001 with the camera at latitude 48 is (the
  difference of these doubles exceeds the threshold).
\<close>

theorem recenter_beyond_threshold:
  "mode_of (isNavigating p) (isFollowingUser p) \<noteq> Idle \<Longrightarrow>
   userLocation p = Some u \<Longrightarrow> isValidCoord (lat u) (lng u) \<Longrightarrow>
   MapUpdater p m r =
     (if js_gt (displacement (map_center m) (lat u, lng u)) (round_double 0.0001)
      then (SetView (lat u) (lng u) (map_zoom m) 1.0, r) else (NoOp, r))
   \<and> (isValidCoord (lat v) (lng v)
        \<and> \<not> js_gt (displacement (lat u, lng u) (lat v, lng v)) (round_double 0.0001) \<longrightarrow>
       MapUpdater (p\<lparr>userLocation := Some v\<rparr>) (setView m (lat u) (lng u) (map_zoom m)) r
       = (NoOp, r))"
proof -
  assume g: "mode_of (isNavigating p) (isFollowingUser p) \<noteq> Idle"
    and u: "userLocation p = Some u" "isValidCoord (lat u) (lng u)"
  from g have f: "isFollowingUser p" by (simp add: mode_not_Idle)
  then have nf: "isNavigating p \<or> isFollowingUser p" by simp
  have 1: "MapUpdater p m r =
     (if js_gt (displacement (map_center m) (lat u, lng u)) (round_double 0.0001)
      then (SetView (lat u) (lng u) (map_zoom m) 1.0, r) else (NoOp, r))"
    using MapUpdater_follow_flag[OF f] follow_user_valid[OF nf u] by simp
  let ?p = "p\<lparr>userLocation := Some v\<rparr>"
  let ?m = "setView m (lat u) (lng u) (map_zoom m)"
  have f': "isFollowingUser ?p" using f by simp
  have 2: "MapUpdater ?p ?m r = (NoOp, r)"
    if "isValidCoord (lat v) (lng v)"
       "\<not> js_gt (displacement (lat u, lng u) (lat v, lng v)) (round_double 0.0001)"
    using MapUpdater_follow_flag[OF f', of ?m r] follow_user_valid[of ?p v ?m r] f that
    by (simp add: setView_def)
  show ?thesis
    using 1 2 by blast
qed

theorem recenter_beyond_threshold_witness:
  "MapUpdater
        \<lparr>center = Some \<lparr>lat = Fin 52.5, lng = Fin 13.25, accuracy = None\<rparr>, zoom = Some (Fin 16),
         userLocation = Some \<lparr>lat = Fin 52.5, lng = Fin 13.5, accuracy = Some (Fin 5)\<rparr>,
         isNavigating = False, routeData = None, isFollowingUser = True\<rparr>
        \<lparr>map_center = (Fin 52.5, Fin 13.25), map_zoom = Fin 16\<rparr>
        \<lparr>lastAppliedCenter = None, lastAppliedZoom = None\<rparr>
     = (SetView (Fin 52.5) (Fin 13.5) (Fin 16) 1.0, \<lparr>lastAppliedCenter = None, lastAppliedZoom = None\<rparr>)
   \<and> MapUpdater
        \<lparr>center = Some \<lparr>lat = Fin 52.5, lng = Fin 13.25, accuracy = None\<rparr>, zoom = Some (Fin 16),
         userLocation = Some \<lparr>lat = Fin 52.5, lng = Fin (13.5 + 1 / 65536), accuracy = Some (Fin 5)\<rparr>,
         isNavigating = False, routeData = None, isFollowingUser = True\<rparr>
        \<lparr>map_center = (Fin 52.5, Fin 13.5), map_zoom = Fin 16\<rparr>
        \<lparr>lastAppliedCenter = None, lastAppliedZoom = None\<rparr>
     = (NoOp, \<lparr>lastAppliedCenter = None, lastAppliedZoom = None\<rparr>)
   \<and> round_double 0.0001 = Fin (7378697629483821 / 2 ^ 66)
   \<and> MapUpdater
        \<lparr>center = None, zoom = None,
         userLocation = Some \<lparr>lat = Fin (7378697629483821 / 2 ^ 66), lng = Fin 0, accuracy = None\<rparr>,
         isNavigating = False, routeData = None, isFollowingUser = True\<rparr>
        \<lparr>map_center = (Fin 0, Fin 0), map_zoom = Fin 16\<rparr>
        \<lparr>lastAppliedCenter = None, lastAppliedZoom = None\<rparr>
     = (NoOp, \<lparr>lastAppliedCenter = None, lastAppliedZoom = None\<rparr>)
   \<and> round_double 48.0001 = Fin (6755413514804580 / 2 ^ 47)
   \<and> MapUpdater
        \<lparr>center = None, zoom = None,
         userLocation = Some \<lparr>lat = Fin (6755413514804580 / 2 ^ 47), lng = Fin 0, accuracy = None\<rparr>,
         isNavigating = False, routeData = None, isFollowingUser = True\<rparr>
        \<lparr>map_center = (Fin 48, Fin 0), map_zoom = Fin 16\<rparr>
        \<lparr>lastAppliedCenter = None, lastAppliedZoom = None\<rparr>
     = (SetView (Fin (6755413514804580 / 2 ^ 47)) (Fin 0) (Fin 16) 1.0,
        \<lparr>lastAppliedCenter = None, lastAppliedZoom = None\<rparr>)"
proof -
  let ?r = "\<lparr>lastAppliedCenter = None, lastAppliedZoom = None\<rparr>"
  let ?u1 = "\<lparr>lat = Fin 52.5, lng = Fin 13.5, accuracy = Some (Fin 5)\<rparr>"
  let ?u2 = "\<lparr>lat = Fin 52.5, lng = Fin (13.5 + 1 / 65536), accuracy = Some (Fin 5)\<rparr>"
  let ?p = "\<lparr>center = Some \<lparr>lat = Fin 52.5, lng = Fin 13.25, accuracy = None\<rparr>, zoom = Some (Fin 16),
         userLocation = Some ?u1, isNavigating = False, routeData = None, isFollowingUser = True\<rparr>"
  let ?q = "\<lambda>u. \<lparr>center = None, zoom = None, userLocation = Some u,
         isNavigating = False, routeData = None, isFollowingUser = True\<rparr>"
  let ?a = "\<lparr>lat = Fin (7378697629483821 / 2 ^ 66), lng = Fin 0, accuracy = None\<rparr>"
  let ?b = "\<lparr>lat = Fin (6755413514804580 / 2 ^ 47), lng = Fin 0, accuracy = None\<rparr>"
  have 1: "MapUpdater ?p \<lparr>map_center = (Fin 52.5, Fin 13.25), map_zoom = Fin 16\<rparr> ?r
             = (SetView (Fin 52.5) (Fin 13.5) (Fin 16) 1.0, ?r)"
      and 2: "MapUpdater (?p\<lparr>userLocation := Some ?u2\<rparr>) \<lparr>map_center = (Fin 52.5, Fin 13.5), map_zoom = Fin 16\<rparr> ?r
             = (NoOp, ?r)"
    using recenter_beyond_threshold[of ?p ?u1 "\<lparr>map_center = (Fin 52.5, Fin 13.25), map_zoom = Fin 16\<rparr>" ?r ?u2]
        displacement_quarter[of "52.5" "13.25"] displacement_small[of "52.5" "13.5"]
        beyond_threshold within_threshold
    by (simp_all add: mode_of_def isValidCoord_def setView_def)
  have 3: "MapUpdater (?q ?a) \<lparr>map_center = (Fin 0, Fin 0), map_zoom = Fin 16\<rparr> ?r = (NoOp, ?r)"
    using recenter_beyond_threshold[of "?q ?a" ?a "\<lparr>map_center = (Fin 0, Fin 0), map_zoom = Fin 16\<rparr>" ?r ?a,
            THEN conjunct1]
        displacement_at_threshold at_threshold
    by (simp add: mode_of_def isValidCoord_def)
  have 4: "MapUpdater (?q ?b) \<lparr>map_center = (Fin 48, Fin 0), map_zoom = Fin 16\<rparr> ?r
             = (SetView (Fin (6755413514804580 / 2 ^ 47)) (Fin 0) (Fin 16) 1.0, ?r)"
    using recenter_beyond_threshold[of "?q ?b" ?b "\<lparr>map_center = (Fin 48, Fin 0), map_zoom = Fin 16\<rparr>" ?r ?b,
            THEN conjunct1]
        displacement_past_threshold past_threshold
    by (simp add: mode_of_def isValidCoord_def)
  from 1 2 3 4 threshold_4 double_48_0001 show ?thesis by simp
qed




text \<open>
  C2: a drag puts the mode to Idle, and a position arriving right after it does not
  recentre the camera. The first half holds in every state (\<open>drag_makes_idle\<close>), and
  a position leaves the mode as it is when only the watch of the mount effect runs
  (\<open>position_keeps_mode\<close>). But the locate button, pressed before any position is
  known, starts a watch that turns following on at every position it delivers. After
  the first position the mode is Following; the drag makes it Idle; the next position
  makes it Following again, and the effect recentres the dragged camera on that position.
\<close>

theorem locate_watch_recenters_after_drag:
  "snd (handleManualLocate initial_state) = True
   \<and> mode_of (app_isNavigating (position_fix True (Fin 10) (Fin 10) (Fin 5) (fst (handleManualLocate initial_state))))
        (app_isFollowingUser (position_fix True (Fin 10) (Fin 10) (Fin 5) (fst (handleManualLocate initial_state))))
     = Following
   \<and> mode_of (app_isNavigating (handleMapDrag (position_fix True (Fin 10) (Fin 10) (Fin 5) (fst (handleManualLocate initial_state)))))
        (app_isFollowingUser (handleMapDrag (position_fix True (Fin 10) (Fin 10) (Fin 5) (fst (handleManualLocate initial_state)))))
     = Idle
   \<and> mode_of (app_isNavigating (position_fix True (Fin 10) (Fin 10.75) (Fin 5)
          (handleMapDrag (position_fix True (Fin 10) (Fin 10) (Fin 5) (fst (handleManualLocate initial_state))))))
        (app_isFollowingUser (position_fix True (Fin 10) (Fin 10.75) (Fin 5)
          (handleMapDrag (position_fix True (Fin 10) (Fin 10) (Fin 5) (fst (handleManualLocate initial_state))))))
     = Following
   \<and> MapUpdater
        (map_props (position_fix True (Fin 10) (Fin 10.75) (Fin 5)
          (handleMapDrag (position_fix True (Fin 10) (Fin 10) (Fin 5) (fst (handleManualLocate initial_state))))))
        \<lparr>map_center = (Fin 10, Fin 10.5), map_zoom = Fin 2\<rparr>
        \<lparr>lastAppliedCenter = None, lastAppliedZoom = None\<rparr>
     = (SetView (Fin 10) (Fin 10.75) (Fin 2) 1.0, \<lparr>lastAppliedCenter = None, lastAppliedZoom = None\<rparr>)"
proof -
  let ?a = "position_fix True (Fin 10) (Fin 10.75) (Fin 5)
          (handleMapDrag (position_fix True (Fin 10) (Fin 10) (Fin 5) (fst (handleManualLocate initial_state))))"
  let ?u = "\<lparr>lat = Fin 10, lng = Fin 10.75, accuracy = Some (Fin 5)\<rparr>"
  let ?m = "\<lparr>map_center = (Fin 10, Fin 10.5), map_zoom = Fin 2\<rparr>"
  let ?r = "\<lparr>lastAppliedCenter = None, lastAppliedZoom = None\<rparr>"
  have p: "map_props ?a =
      \<lparr>center = Some ?u, zoom = Some (Fin 16), userLocation = Some ?u,
       isNavigating = False, routeData = None, isFollowingUser = True\<rparr>"
    by (simp add: map_props_def position_fix_def watch_success_def mount_onSuccess_def
        locate_onSuccess_def handleMapDrag_def handleManualLocate_def initial_state_def
        app_userLocation_def Let_def)
  have "MapUpdater (map_props ?a) ?m ?r = follow_user (map_props ?a) ?m ?r"
    unfolding p by (rule MapUpdater_follow_flag) simp
  also have "\<dots> = (SetView (Fin 10) (Fin 10.75) (Fin 2) 1.0, ?r)"
    unfolding p
    using follow_user_valid[of "\<lparr>center = Some ?u, zoom = Some (Fin 16), userLocation = Some ?u,
       isNavigating = False, routeData = None, isFollowingUser = True\<rparr>" ?u ?m ?r]
      displacement_quarter[of 10 "10.5"] beyond_threshold
    by (simp add: isValidCoord_def)
  finally have 1: "MapUpdater (map_props ?a) ?m ?r = (SetView (Fin 10) (Fin 10.75) (Fin 2) 1.0, ?r)" .
  have 2: "snd (handleManualLocate initial_state) = True"
    by (simp add: handleManualLocate_def initial_state_def Let_def)
  have 3: "app_isFollowingUser (position_fix True (Fin 10) (Fin 10) (Fin 5) (fst (handleManualLocate initial_state)))"
    "\<not> app_isNavigating (position_fix True (Fin 10) (Fin 10) (Fin 5) (fst (handleManualLocate initial_state)))"
    "\<not> app_isFollowingUser (handleMapDrag (position_fix True (Fin 10) (Fin 10) (Fin 5) (fst (handleManualLocate initial_state))))"
    "\<not> app_isNavigating (handleMapDrag (position_fix True (Fin 10) (Fin 10) (Fin 5) (fst (handleManualLocate initial_state))))"
    "app_isFollowingUser ?a" "\<not> app_isNavigating ?a"
    by (simp_all add: position_fix_def watch_success_def mount_onSuccess_def
        locate_onSuccess_def handleMapDrag_def handleManualLocate_def initial_state_def Let_def)
  show ?thesis
    using 1 2 3 by (simp add: mode_of_def)
qed

text \<open>
  C7: a directive with invalid coordinates does nothing and raises nothing. This holds
  for an explicit centre and for a position (\<open>invalid_center_ignored\<close>,
  \<open>invalid_position_ignored\<close>: the effect runs as if they were absent) and for the
  fit of the places (\<open>fitBounds_no_valid_point\<close>, \<open>fitBounds_never_throws\<close>). The
  route block hands its coordinates to the library unchecked and outside any handler:
  a route with a NaN point makes the effect raise, and a route with an infinite point is
  fitted.
\<close>

theorem unvalidated_route_reaches_bounds:
  "MapUpdater
        \<lparr>center = Some \<lparr>lat = Fin 48.85, lng = Fin 2.35, accuracy = None\<rparr>, zoom = Some (Fin 14),
         userLocation = None, isNavigating = False,
         routeData = Some \<lparr>route_coordinates = [(NaN, NaN)], distance = Fin 0, duration = Fin 0\<rparr>,
         isFollowingUser = False\<rparr>
        \<lparr>map_center = (Fin 48.85, Fin 2.35), map_zoom = Fin 14\<rparr>
        \<lparr>lastAppliedCenter = None, lastAppliedZoom = None\<rparr>
     = (Threw, \<lparr>lastAppliedCenter = None, lastAppliedZoom = None\<rparr>)
   \<and> isValidCoord PosInf (Fin 2.35) = False
   \<and> MapUpdater
        \<lparr>center = Some \<lparr>lat = Fin 48.85, lng = Fin 2.35, accuracy = None\<rparr>, zoom = Some (Fin 14),
         userLocation = None, isNavigating = False,
         routeData = Some \<lparr>route_coordinates = [(PosInf, Fin 2.35)], distance = Fin 0, duration = Fin 0\<rparr>,
         isFollowingUser = False\<rparr>
        \<lparr>map_center = (Fin 48.85, Fin 2.35), map_zoom = Fin 14\<rparr>
        \<lparr>lastAppliedCenter = None, lastAppliedZoom = None\<rparr>
     = (FitBounds [(PosInf, Fin 2.35)] None, \<lparr>lastAppliedCenter = None, lastAppliedZoom = None\<rparr>)"
  by (simp add: MapUpdater_def latLngBounds_def bounds_isValid_def isValidCoord_def)

end
